theory Spec2Isabelle
  imports Complex_Main "HOL-Library.Sublist" "HOL-Library.FSet"
begin

section \<open>JavaScript values used by the orchestration layer\<close>

text \<open>
  Times are the integer milliseconds of \<^verbatim>\<open>Date.now()\<close>. A timestamp field that
  may hold \<^verbatim>\<open>null\<close> is an \<open>int option\<close>; in arithmetic JavaScript coerces
  \<^verbatim>\<open>null\<close> to \<open>0\<close>. Errors are \<^verbatim>\<open>Error\<close> objects that the code only ever
  inspects through their \<^verbatim>\<open>message\<close>, so an error is its message string.
\<close>

definition js_num :: "int option \<Rightarrow> int" where
  "js_num v = (case v of None \<Rightarrow> 0 | Some t \<Rightarrow> t)"

text \<open>\<^verbatim>\<open>options.x || d\<close>: a missing or zero option falls back to the default.\<close>

definition or_default :: "int option \<Rightarrow> int \<Rightarrow> int" where
  "or_default v d = (case v of None \<Rightarrow> d | Some x \<Rightarrow> if x = 0 then d else x)"

text \<open>\<^verbatim>\<open>Math.ceil(x / 1000)\<close> on an integer number of milliseconds.\<close>

definition ceil_seconds :: "int \<Rightarrow> int" where
  "ceil_seconds x = - ((- x) div 1000)"

text \<open>Decimal rendering of a number inside a template literal.\<close>

definition digit :: "nat \<Rightarrow> char" where
  "digit d = ''0123456789'' ! d"

function show_nat :: "nat \<Rightarrow> string" where
  "show_nat n = (if n < 10 then [digit n] else show_nat (n div 10) @ [digit (n mod 10)])"
  by pat_completeness auto
termination
  by (relation "measure (\<lambda>n. n)") auto

declare show_nat.simps [simp del]

definition show_int :: "int \<Rightarrow> string" where
  "show_int i = (if i < 0 then CHR ''-'' # show_nat (nat (- i)) else show_nat (nat i))"

text \<open>\<^verbatim>\<open>String.prototype.includes\<close> and \<^verbatim>\<open>startsWith\<close>.\<close>

fun str_includes :: "string \<Rightarrow> string \<Rightarrow> bool" where
  "str_includes [] needle = (needle = [])"
| "str_includes (c # cs) needle = (prefix needle (c # cs) \<or> str_includes cs needle)"

definition startsWith :: "string \<Rightarrow> string \<Rightarrow> bool" where
  "startsWith s p = prefix p s"

section \<open>Circuit breaker (class CircuitBreaker of lib/utils.js)\<close>

datatype circuit_state = CLOSED | OPEN | HALF_OPEN

record circuit_stats =
  totalRequests :: nat
  totalFailures :: nat
  totalSuccesses :: nat
  circuitOpenCount :: nat
  lastStateChange :: int

record CircuitBreaker =
  failureThreshold :: int
  resetTimeout :: int
  monitoringPeriod :: int
  state :: circuit_state
  failures :: nat
  lastFailureTime :: "int option"
  successCount :: nat
  requestCount :: nat
  lastRequestTime :: "int option"
  stats :: circuit_stats

text \<open>The constructor; \<open>now\<close> is the clock at construction.\<close>

definition new_CircuitBreaker :: "int option \<Rightarrow> int option \<Rightarrow> int option \<Rightarrow> int \<Rightarrow> CircuitBreaker" where
  "new_CircuitBreaker threshold timeout period now =
     \<lparr> failureThreshold = or_default threshold 3,
       resetTimeout = or_default timeout 30000,
       monitoringPeriod = or_default period 10000,
       state = CLOSED,
       failures = 0,
       lastFailureTime = None,
       successCount = 0,
       requestCount = 0,
       lastRequestTime = None,
       stats = \<lparr> totalRequests = 0, totalFailures = 0, totalSuccesses = 0,
                 circuitOpenCount = 0, lastStateChange = now \<rparr> \<rparr>"

definition changeState :: "CircuitBreaker \<Rightarrow> circuit_state \<Rightarrow> int \<Rightarrow> CircuitBreaker" where
  "changeState cb newState now =
     cb\<lparr> state := newState, stats := (stats cb)\<lparr> lastStateChange := now \<rparr> \<rparr>"

text \<open>
  \<^verbatim>\<open>execute\<close> is an async method: the code before \<^verbatim>\<open>await operation()\<close> runs at the
  time of the call, the code after it when the operation has settled. The three parts
  are modelled one by one; each reads the clock given to it.

  \<open>execute_enter\<close> is the part before the operation: the request counters, and the gate
  of the OPEN state. Its second component is the error thrown by the gate, if any.
\<close>

definition open_message :: "int \<Rightarrow> string" where
  "open_message remainingTime =
     ''Circuit breaker is OPEN - retry in '' @ show_int remainingTime @ '' seconds''"

definition execute_enter :: "CircuitBreaker \<Rightarrow> int \<Rightarrow> CircuitBreaker \<times> string option" where
  "execute_enter cb now =
     (let cb1 = cb\<lparr> requestCount := requestCount cb + 1,
                    stats := (stats cb)\<lparr> totalRequests := totalRequests (stats cb) + 1 \<rparr>,
                    lastRequestTime := Some now \<rparr>
      in if state cb1 = OPEN then
           if now - js_num (lastFailureTime cb1) > resetTimeout cb1
           then ((changeState cb1 HALF_OPEN now)\<lparr> successCount := 0 \<rparr>, None)
           else (cb1, Some (open_message
                   (ceil_seconds (resetTimeout cb1 - (now - js_num (lastFailureTime cb1))))))
         else (cb1, None))"

text \<open>The success path after the operation returned.\<close>

definition execute_success :: "CircuitBreaker \<Rightarrow> int \<Rightarrow> CircuitBreaker" where
  "execute_success cb now =
     (let cb1 = cb\<lparr> stats := (stats cb)\<lparr> totalSuccesses := totalSuccesses (stats cb) + 1 \<rparr> \<rparr>
      in if state cb1 = HALF_OPEN then
           (let cb2 = cb1\<lparr> successCount := successCount cb1 + 1 \<rparr>
            in if successCount cb2 \<ge> 2
               then (changeState cb2 CLOSED now)\<lparr> failures := 0 \<rparr>
               else cb2)
         else cb1)"

text \<open>The \<^verbatim>\<open>catch\<close> path after the operation threw.\<close>

definition execute_failure :: "CircuitBreaker \<Rightarrow> int \<Rightarrow> CircuitBreaker" where
  "execute_failure cb now =
     (let cb1 = cb\<lparr> failures := failures cb + 1,
                    stats := (stats cb)\<lparr> totalFailures := totalFailures (stats cb) + 1 \<rparr>,
                    lastFailureTime := Some now \<rparr>
      in if int (failures cb1) \<ge> failureThreshold cb1 \<and> state cb1 \<noteq> OPEN
         then (let cb2 = changeState cb1 OPEN now
               in cb2\<lparr> stats := (stats cb2)\<lparr> circuitOpenCount := circuitOpenCount (stats cb2) + 1 \<rparr> \<rparr>)
         else cb1)"

text \<open>
  One call of \<^verbatim>\<open>execute\<close> with nothing interleaved between its parts. The protected
  operation acts on an outside world \<open>'w\<close> (the upstream service, a call counter) and
  returns its result or throws an error; \<open>now\<close> is the clock when \<^verbatim>\<open>execute\<close> is
  called, \<open>settled\<close> the clock when the operation has settled. When the gate throws,
  the operation is not applied and the world is returned as it was.
\<close>

definition execute ::
  "CircuitBreaker \<Rightarrow> int \<Rightarrow> int \<Rightarrow> ('w \<Rightarrow> (string + 'r) \<times> 'w) \<Rightarrow> 'w
     \<Rightarrow> (string + 'r) \<times> CircuitBreaker \<times> 'w" where
  "execute cb now settled operation w =
     (case execute_enter cb now of
        (cb1, Some err) \<Rightarrow> (Inl err, cb1, w)
      | (cb1, None) \<Rightarrow>
          (case operation w of
             (Inr result, w') \<Rightarrow> (Inr result, execute_success cb1 settled, w')
           | (Inl error, w') \<Rightarrow> (Inl error, execute_failure cb1 settled, w')))"

definition reset :: "CircuitBreaker \<Rightarrow> int \<Rightarrow> CircuitBreaker" where
  "reset cb now =
     (changeState cb CLOSED now)\<lparr> failures := 0, successCount := 0, lastFailureTime := None \<rparr>"

definition isHealthy :: "CircuitBreaker \<Rightarrow> bool" where
  "isHealthy cb = (state cb = CLOSED \<or> state cb = HALF_OPEN)"

text \<open>Projections of the triple returned by \<open>execute\<close>.\<close>

definition breaker_after :: "(string + 'r) \<times> CircuitBreaker \<times> 'w \<Rightarrow> CircuitBreaker" where
  "breaker_after res = fst (snd res)"

definition world_after :: "(string + 'r) \<times> CircuitBreaker \<times> 'w \<Rightarrow> 'w" where
  "world_after res = snd (snd res)"

text \<open>
  The breakers that can arise from a constructed one, whatever the interleaving of the
  parts of concurrent \<^verbatim>\<open>execute\<close> calls and of \<^verbatim>\<open>reset\<close>.
\<close>

inductive breaker_reachable :: "CircuitBreaker \<Rightarrow> bool" where
  constructed: "breaker_reachable (new_CircuitBreaker threshold timeout period now)"
| entered: "breaker_reachable cb \<Longrightarrow> breaker_reachable (fst (execute_enter cb now))"
| succeeded: "breaker_reachable cb \<Longrightarrow> breaker_reachable (execute_success cb now)"
| failed: "breaker_reachable cb \<Longrightarrow> breaker_reachable (execute_failure cb now)"
| was_reset: "breaker_reachable cb \<Longrightarrow> breaker_reachable (reset cb now)"

section \<open>Admission control (class ConcurrencyManager of lib/utils.js)\<close>

record concurrency_stats =
  totalRequests_cm :: nat
  activeRequests_cm :: int
  rejectedRequests :: nat

text \<open>
  \<open>activeRequests\<close> is the \<^verbatim>\<open>Map\<close> from a voice id to the \<^verbatim>\<open>Set\<close> of its request ids.
  \<open>stats.activeRequests\<close> is decremented as well as incremented, so it is an \<open>int\<close>.
\<close>

record ConcurrencyManager =
  activeRequests :: "string \<rightharpoonup> string fset"
  maxConcurrentPerVoice :: int
  requestCounter :: nat
  concurrencyEnabled :: bool
  stats_cm :: concurrency_stats

text \<open>
  The constructor: \<open>enabled\<close> is \<^verbatim>\<open>options.concurrencyEnabled === true\<close>, \<open>env_enabled\<close> is
  \<^verbatim>\<open>process.env.ENABLE_CONCURRENCY_CONTROL === 'true'\<close>.
\<close>

definition new_ConcurrencyManager :: "int option \<Rightarrow> bool \<Rightarrow> bool \<Rightarrow> ConcurrencyManager" where
  "new_ConcurrencyManager maxPerVoice enabled env_enabled =
     \<lparr> activeRequests = Map.empty,
       maxConcurrentPerVoice = or_default maxPerVoice 3,
       requestCounter = 0,
       concurrencyEnabled = (enabled \<or> env_enabled),
       stats_cm = \<lparr> totalRequests_cm = 0, activeRequests_cm = 0, rejectedRequests = 0 \<rparr> \<rparr>"

definition generateRequestId :: "ConcurrencyManager \<Rightarrow> int \<Rightarrow> string \<times> ConcurrencyManager" where
  "generateRequestId cm now =
     (''req_'' @ show_int now @ ''_'' @ show_nat (requestCounter cm + 1),
      cm\<lparr> requestCounter := requestCounter cm + 1 \<rparr>)"

text \<open>\<^verbatim>\<open>this.activeRequests.get(voiceId)?.size || 0\<close>\<close>

definition activeCount :: "ConcurrencyManager \<Rightarrow> string \<Rightarrow> nat" where
  "activeCount cm voiceId = (case activeRequests cm voiceId of None \<Rightarrow> 0 | Some requests \<Rightarrow> fcard requests)"

definition canProcessRequest :: "ConcurrencyManager \<Rightarrow> string \<Rightarrow> bool \<times> ConcurrencyManager" where
  "canProcessRequest cm voiceId =
     (if \<not> concurrencyEnabled cm then (True, cm)
      else
        (let canProcess = (int (activeCount cm voiceId) < maxConcurrentPerVoice cm)
         in if \<not> canProcess
            then (canProcess,
                  cm\<lparr> stats_cm := (stats_cm cm)\<lparr> rejectedRequests := rejectedRequests (stats_cm cm) + 1 \<rparr> \<rparr>)
            else (canProcess, cm)))"

definition startRequest :: "ConcurrencyManager \<Rightarrow> string \<Rightarrow> string \<Rightarrow> ConcurrencyManager" where
  "startRequest cm voiceId requestId =
     (let requests = (case activeRequests cm voiceId of None \<Rightarrow> {||} | Some rs \<Rightarrow> rs)
      in cm\<lparr> activeRequests := (activeRequests cm)(voiceId \<mapsto> finsert requestId requests),
             stats_cm := (stats_cm cm)\<lparr> totalRequests_cm := totalRequests_cm (stats_cm cm) + 1,
                                       activeRequests_cm := activeRequests_cm (stats_cm cm) + 1 \<rparr> \<rparr>)"

definition finishRequest :: "ConcurrencyManager \<Rightarrow> string \<Rightarrow> string \<Rightarrow> ConcurrencyManager" where
  "finishRequest cm voiceId requestId =
     (case activeRequests cm voiceId of
        None \<Rightarrow> cm
      | Some requests \<Rightarrow>
          (let requests' = requests |-| {|requestId|}
           in cm\<lparr> activeRequests :=
                    (if fcard requests' = 0 then (activeRequests cm)(voiceId := None)
                     else (activeRequests cm)(voiceId \<mapsto> requests')),
                  stats_cm := (stats_cm cm)\<lparr> activeRequests_cm := activeRequests_cm (stats_cm cm) - 1 \<rparr> \<rparr>))"

section \<open>Session store (browser profiles of lib/utils.js)\<close>

record browser_profile =
  profile_id :: string
  profile_name :: string
  headers :: "(string \<times> string) list"

definition BROWSER_PROFILES :: "browser_profile list" where
  \<open>BROWSER_PROFILES =
   [ \<lparr> profile_id = ''chrome_125_windows'',
       profile_name = ''Chrome 125 on Windows 11'',
       headers =
        [ (''User-Agent'', ''Mozilla/5.0 (Windows NT 10.0; Win64; x64) AppleWebKit/537.36 (KHTML, like Gecko) Chrome/125.0.0.0 Safari/537.36''),
          (''sec-ch-ua'', ''"Google Chrome";v="125", "Chromium";v="125", "Not.A/Brand";v="24"''),
          (''sec-ch-ua-mobile'', ''?0''),
          (''sec-ch-ua-platform'', ''"Windows"''),
          (''Accept'', ''*/*''),
          (''Accept-Language'', ''en-US,en;q=0.9''),
          (''Accept-Encoding'', ''gzip, deflate, br''),
          (''Referer'', ''https://elevenlabs.io/''),
          (''Origin'', ''https://elevenlabs.io''),
          (''sec-fetch-dest'', ''empty''),
          (''sec-fetch-mode'', ''cors''),
          (''sec-fetch-site'', ''same-site'') ] \<rparr>,
     \<lparr> profile_id = ''chrome_124_windows'',
       profile_name = ''Chrome 124 on Windows 10'',
       headers =
        [ (''User-Agent'', ''Mozilla/5.0 (Windows NT 10.0; Win64; x64) AppleWebKit/537.36 (KHTML, like Gecko) Chrome/124.0.0.0 Safari/537.36''),
          (''sec-ch-ua'', ''"Chromium";v="124", "Google Chrome";v="124", "Not-A.Brand";v="99"''),
          (''sec-ch-ua-mobile'', ''?0''),
          (''sec-ch-ua-platform'', ''"Windows"''),
          (''Accept'', ''*/*''),
          (''Accept-Language'', ''en-US,en;q=0.9,zh-CN;q=0.8''),
          (''Accept-Encoding'', ''gzip, deflate, br''),
          (''Referer'', ''https://elevenlabs.io/''),
          (''Origin'', ''https://elevenlabs.io''),
          (''sec-fetch-dest'', ''empty''),
          (''sec-fetch-mode'', ''cors''),
          (''sec-fetch-site'', ''same-site'') ] \<rparr>,
     \<lparr> profile_id = ''firefox_126_windows'',
       profile_name = ''Firefox 126 on Windows 11'',
       headers =
        [ (''User-Agent'', ''Mozilla/5.0 (Windows NT 10.0; Win64; x64; rv:126.0) Gecko/20100101 Firefox/126.0''),
          (''Accept'', ''*/*''),
          (''Accept-Language'', ''en-US,en;q=0.5''),
          (''Accept-Encoding'', ''gzip, deflate, br''),
          (''Referer'', ''https://elevenlabs.io/''),
          (''Origin'', ''https://elevenlabs.io''),
          (''DNT'', ''1''),
          (''Sec-Fetch-Dest'', ''empty''),
          (''Sec-Fetch-Mode'', ''cors''),
          (''Sec-Fetch-Site'', ''same-site'') ] \<rparr>,
     \<lparr> profile_id = ''safari_17_macos'',
       profile_name = ''Safari 17 on macOS Sonoma'',
       headers =
        [ (''User-Agent'', ''Mozilla/5.0 (Macintosh; Intel Mac OS X 10_15_7) AppleWebKit/605.1.15 (KHTML, like Gecko) Version/17.4.1 Safari/605.1.15''),
          (''Accept'', ''*/*''),
          (''Accept-Language'', ''en-US,en;q=0.9''),
          (''Accept-Encoding'', ''gzip, deflate, br''),
          (''Referer'', ''https://elevenlabs.io/''),
          (''Origin'', ''https://elevenlabs.io''),
          (''Sec-Fetch-Dest'', ''empty''),
          (''Sec-Fetch-Mode'', ''cors''),
          (''Sec-Fetch-Site'', ''same-site'') ] \<rparr>,
     \<lparr> profile_id = ''edge_125_windows'',
       profile_name = ''Microsoft Edge 125 on Windows 11'',
       headers =
        [ (''User-Agent'', ''Mozilla/5.0 (Windows NT 10.0; Win64; x64) AppleWebKit/537.36 (KHTML, like Gecko) Chrome/125.0.0.0 Safari/537.36 Edg/125.0.0.0''),
          (''sec-ch-ua'', ''"Microsoft Edge";v="125", "Chromium";v="125", "Not.A/Brand";v="24"''),
          (''sec-ch-ua-mobile'', ''?0''),
          (''sec-ch-ua-platform'', ''"Windows"''),
          (''Accept'', ''*/*''),
          (''Accept-Language'', ''en-US,en;q=0.9''),
          (''Accept-Encoding'', ''gzip, deflate, br''),
          (''Referer'', ''https://elevenlabs.io/''),
          (''Origin'', ''https://elevenlabs.io''),
          (''sec-fetch-dest'', ''empty''),
          (''sec-fetch-mode'', ''cors''),
          (''sec-fetch-site'', ''same-site'') ] \<rparr> ]\<close>

text \<open>\<^verbatim>\<open>BEHAVIOR_CONFIG\<close>, in milliseconds.\<close>

definition minDelay :: int where "minDelay = 800"
definition maxDelay :: int where "maxDelay = 2500"
definition sessionDuration :: int where "sessionDuration = 300000"
definition retryDelayMultiplier :: int where "retryDelayMultiplier = 2"
definition maxRetryDelay :: int where "maxRetryDelay = 10000"

record session =
  profile :: browser_profile
  startTime :: int
  requestCount_s :: nat

text \<open>
  \<^verbatim>\<open>Math.floor(Math.random() * BROWSER_PROFILES.length)\<close>, for a draw \<open>u\<close> of
  \<^verbatim>\<open>Math.random()\<close>, which lies in \<open>[0, 1)\<close>.
\<close>

definition randomIndex :: "real \<Rightarrow> nat" where
  "randomIndex u = nat \<lfloor>u * real (length BROWSER_PROFILES)\<rfloor>"

text \<open>
  \<open>activeSessions\<close> is the \<^verbatim>\<open>Map\<close> of sessions; the function returns the profile and
  the map as it leaves it. \<open>now\<close> is \<^verbatim>\<open>Date.now()\<close>, \<open>u\<close> the draw of \<^verbatim>\<open>Math.random()\<close>
  (read only when a new session is made).
\<close>

definition getBrowserProfileForSession ::
  "(string \<rightharpoonup> session) \<Rightarrow> int \<Rightarrow> real \<Rightarrow> string \<Rightarrow> browser_profile \<times> (string \<rightharpoonup> session)" where
  "getBrowserProfileForSession activeSessions now u sessionId =
     (let fresh = (\<lambda>sessions.
            (let selectedProfile = BROWSER_PROFILES ! randomIndex u
             in (selectedProfile,
                 sessions(sessionId \<mapsto> \<lparr> profile = selectedProfile, startTime = now, requestCount_s = 0 \<rparr>))))
      in case activeSessions sessionId of
           Some s \<Rightarrow>
             if now - startTime s < sessionDuration then (profile s, activeSessions)
             else fresh (activeSessions(sessionId := None))
         | None \<Rightarrow> fresh activeSessions)"

definition cleanupExpiredSessions :: "(string \<rightharpoonup> session) \<Rightarrow> int \<Rightarrow> (string \<rightharpoonup> session)" where
  "cleanupExpiredSessions activeSessions now =
     (\<lambda>sessionId. case activeSessions sessionId of
        None \<Rightarrow> None
      | Some s \<Rightarrow> if now - startTime s \<ge> sessionDuration then None else Some s)"

text \<open>
  \<open>md5\<close> stands for \<^verbatim>\<open>crypto.createHash('md5').update(s).digest('hex')\<close> of the Node
  library, which is not part of the repository; it is a parameter.
  \<^verbatim>\<open>substring(0, n)\<close> is \<open>take n\<close>.
\<close>

definition generateSessionId :: "(string \<Rightarrow> string) \<Rightarrow> string \<Rightarrow> string \<Rightarrow> string" where
  "generateSessionId md5 voiceId requestBody =
     (let bodyHash = take 8 (md5 (take 100 requestBody))
      in voiceId @ ''_'' @ bodyHash)"

section \<open>Retry orchestrator (callElevenLabsAPI of lib/utils.js)\<close>

text \<open>
  What \<^verbatim>\<open>fetch\<close> gives back: a response, or a thrown network error (its message).
  \<open>errorBody\<close> is the text \<^verbatim>\<open>JSON.stringify(errorBody)\<close> that the code derives from the
  body of a response that is not ok.
\<close>

record upstream_response =
  status :: nat
  contentType :: "string option"
  contentLength :: "string option"
  errorBody :: string

definition ok :: "upstream_response \<Rightarrow> bool" where
  "ok response = (200 \<le> status response \<and> status response \<le> 299)"

record fetch_request =
  url :: string
  request_headers :: "(string \<times> string) list"
  request_body :: string
  request_timeout :: int

text \<open>
  The world the orchestrator acts on: the session map, the requests sent so far through
  \<^verbatim>\<open>fetch\<close>, and the upstream service, which answers the \<open>k\<close>-th request sent with
  \<open>upstream k\<close>.
\<close>

record api_world =
  sessions :: "string \<rightharpoonup> session"
  upstream :: "nat \<Rightarrow> string + upstream_response"
  sent :: "fetch_request list"

definition attemptElevenLabsAPICall ::
  "api_world \<Rightarrow> string \<Rightarrow> string \<Rightarrow> int \<Rightarrow> string \<Rightarrow> browser_profile
     \<Rightarrow> (string + upstream_response) \<times> api_world" where
  "attemptElevenLabsAPICall w voiceId requestBody timeout sessionId browserProfile =
     (let request = \<lparr> url = ''https://api.elevenlabs.io/v1/text-to-speech/'' @ voiceId
                               @ ''?allow_unauthenticated=1'',
                       request_headers = (''Content-Type'', ''application/json'') # headers browserProfile,
                       request_body = requestBody,
                       request_timeout = timeout \<rparr>;
          answer = upstream w (length (sent w));
          w1 = w\<lparr> sent := sent w @ [request] \<rparr>
      in case answer of
           Inl networkError \<Rightarrow> (Inl networkError, w1)
         | Inr response \<Rightarrow>
             (let w2 = (case sessions w1 sessionId of
                          None \<Rightarrow> w1
                        | Some s \<Rightarrow> w1\<lparr> sessions := (sessions w1)
                            (sessionId \<mapsto> s\<lparr> requestCount_s := requestCount_s s + 1 \<rparr>) \<rparr>)
              in if \<not> ok response
                 then (Inl (''HTTP_ERROR_'' @ show_nat (status response) @ '': '' @ errorBody response), w2)
                 else (Inr response, w2)))"

definition getMaxRetriesForHttpError :: "int \<Rightarrow> string \<Rightarrow> int" where
  "getMaxRetriesForHttpError maxRetries message =
     (if str_includes message ''HTTP_ERROR_429'' \<or>
         str_includes message ''HTTP_ERROR_401'' \<or>
         str_includes message ''HTTP_ERROR_403''
      then 2
      else if startsWith message ''HTTP_ERROR_'' then 1
      else maxRetries)"

definition isRetryableError :: "string \<Rightarrow> bool" where
  "isRetryableError message =
     (str_includes message ''ECONNREFUSED'' \<or>
      str_includes message ''ENOTFOUND'' \<or>
      str_includes message ''ECONNRESET'' \<or>
      str_includes message ''timeout'' \<or>
      str_includes message ''ETIMEDOUT'' \<or>
      str_includes message ''HTTP_ERROR_429'' \<or>
      str_includes message ''HTTP_ERROR_401'' \<or>
      str_includes message ''HTTP_ERROR_403'' \<or>
      startsWith message ''HTTP_ERROR_'')"

definition actualMaxRetries :: "int \<Rightarrow> string \<Rightarrow> int" where
  "actualMaxRetries maxRetries message =
     (if startsWith message ''HTTP_ERROR_'' then getMaxRetriesForHttpError maxRetries message
      else maxRetries)"

text \<open>
  The \<^verbatim>\<open>for\<close> loop over \<open>retryCount\<close>. It ends with the response (\<^verbatim>\<open>return result\<close>) or,
  on \<^verbatim>\<open>break\<close> and when \<open>retryCount\<close> reaches \<open>maxRetries\<close>, with \<open>lastError\<close>. The waits
  between attempts only pass time and are left out.
\<close>

function retry_loop ::
  "bool \<Rightarrow> int \<Rightarrow> string \<Rightarrow> string \<Rightarrow> int \<Rightarrow> string \<Rightarrow> browser_profile
     \<Rightarrow> nat \<Rightarrow> string option \<Rightarrow> api_world \<Rightarrow> (string option + upstream_response) \<times> api_world" where
  "retry_loop enableDynamicRegions maxRetries voiceId requestBody timeout sessionId browserProfile
      retryCount lastError w =
     (if int retryCount < maxRetries then
        (case attemptElevenLabsAPICall w voiceId requestBody timeout sessionId browserProfile of
           (Inr result, w') \<Rightarrow> (Inr result, w')
         | (Inl error, w') \<Rightarrow>
             if \<not> enableDynamicRegions \<or> \<not> isRetryableError error \<or>
                int retryCount = actualMaxRetries maxRetries error - 1
             then (Inl (Some error), w')
             else retry_loop enableDynamicRegions maxRetries voiceId requestBody timeout sessionId
                    browserProfile (retryCount + 1) (Some error) w')
      else (Inl lastError, w))"
  by pat_completeness auto
termination
  by (relation "measure (\<lambda>(e, maxRetries, v, b, t, s, p, retryCount, l, w). nat (maxRetries - int retryCount))")
     auto

declare retry_loop.simps [simp del]

text \<open>
  After the loop: a last error that mentions \<^verbatim>\<open>429\<close> removes the session; the last error
  is thrown. \<open>lastError\<close> is \<^verbatim>\<open>null\<close> only when the loop body never ran.
\<close>

definition all_attempts_failed :: "string option \<Rightarrow> string \<Rightarrow> api_world \<Rightarrow> string \<times> api_world" where
  "all_attempts_failed lastError sessionId w =
     (case lastError of
        None \<Rightarrow> (''null'', w)
      | Some message \<Rightarrow>
          if str_includes message ''ECONNREFUSED'' \<or> str_includes message ''ENOTFOUND'' then (message, w)
          else if str_includes message ''timeout'' then (message, w)
          else if str_includes message ''429'' \<or> str_includes message ''Too Many Requests''
          then (message, w\<lparr> sessions := (sessions w)(sessionId := None) \<rparr>)
          else (message, w))"

text \<open>
  \<open>enableDynamicRegions\<close> is \<^verbatim>\<open>process.env.ENABLE_DYNAMIC_REGIONS === 'true'\<close>; \<open>now\<close> and \<open>u\<close>
  are the clock and the random draw read by the session lookup.
\<close>

definition callElevenLabsAPI ::
  "(string \<Rightarrow> string) \<Rightarrow> bool \<Rightarrow> int \<Rightarrow> real \<Rightarrow> string \<Rightarrow> string \<Rightarrow> int \<Rightarrow> api_world
     \<Rightarrow> (string + upstream_response) \<times> api_world" where
  "callElevenLabsAPI md5 enableDynamicRegions now u voiceId requestBody timeout w =
     (let sessionId = generateSessionId md5 voiceId requestBody;
          (browserProfile, activeSessions) = getBrowserProfileForSession (sessions w) now u sessionId;
          w1 = w\<lparr> sessions := activeSessions \<rparr>;
          maxRetries = (if enableDynamicRegions then 3 else 1)
      in case retry_loop enableDynamicRegions maxRetries voiceId requestBody timeout sessionId
                browserProfile 0 None w1 of
           (Inr result, w2) \<Rightarrow> (Inr result, w2)
         | (Inl lastError, w2) \<Rightarrow>
             (let (message, w3) = all_attempts_failed lastError sessionId w2
              in (Inl message, w3)))"

section \<open>Request handler (robustTtsHandler of api/v1/text-to-speech/tts.js)\<close>

text \<open>
  Steps 3 to 7 of \<^verbatim>\<open>robustTtsHandler\<close>, for a request that passed steps 1 and 2 (a POST
  with a voice id and the right secret) and whose body was parsed by Express, so that
  step 6 awaits nothing and yields the non-blank string \<open>requestBody\<close>. Step 3 asks the admission control and answers 429 when it
  refuses; step 4 asks \<^verbatim>\<open>isHealthy\<close> and answers 503 when the breaker is OPEN; step 5
  registers the request; step 7 hands \<^verbatim>\<open>callElevenLabsAPI\<close> to \<^verbatim>\<open>execute\<close>. An early
  \<^verbatim>\<open>return\<close> runs the \<^verbatim>\<open>finally\<close> block, which calls \<^verbatim>\<open>finishRequest\<close>. Nothing is awaited
  between step 4 and the call of \<^verbatim>\<open>execute\<close>, so both see the same breaker.
\<close>

datatype handler_step = TooManyRequests | ServiceUnavailable | Called "string + upstream_response"

record handler_run =
  handler_answer :: handler_step
  handler_manager :: ConcurrencyManager
  handler_breaker :: CircuitBreaker
  handler_world :: api_world

definition robustTtsHandler_steps ::
  "ConcurrencyManager \<Rightarrow> CircuitBreaker \<Rightarrow> (string \<Rightarrow> string) \<Rightarrow> bool \<Rightarrow> int \<Rightarrow> int \<Rightarrow> real
     \<Rightarrow> string \<Rightarrow> string \<Rightarrow> string \<Rightarrow> int \<Rightarrow> api_world \<Rightarrow> handler_run" where
  "robustTtsHandler_steps cm cb md5 enableDynamicRegions now settled u voiceId requestId requestBody
      timeout w =
     (case canProcessRequest cm voiceId of
        (False, cm1) \<Rightarrow>
          \<lparr> handler_answer = TooManyRequests,
            handler_manager = finishRequest cm1 voiceId requestId,
            handler_breaker = cb, handler_world = w \<rparr>
      | (True, cm1) \<Rightarrow>
          if \<not> isHealthy cb
          then \<lparr> handler_answer = ServiceUnavailable,
                 handler_manager = finishRequest cm1 voiceId requestId,
                 handler_breaker = cb, handler_world = w \<rparr>
          else
            (let cm2 = startRequest cm1 voiceId requestId
             in case execute cb now settled
                       (callElevenLabsAPI md5 enableDynamicRegions now u voiceId requestBody timeout) w of
                  (result, cb1, w1) \<Rightarrow>
                    \<lparr> handler_answer = Called result, handler_manager = cm2,
                      handler_breaker = cb1, handler_world = w1 \<rparr>))"

section \<open>Stream relay (robustStreamResponse of lib/utils.js)\<close>

text \<open>
  The response object \<^verbatim>\<open>res\<close> the relay writes to: whether its headers went out, the
  headers set on it, and the status and JSON body sent through it, if any.
\<close>

record sink =
  headersSent :: bool
  sink_headers :: "(string \<times> string) list"
  statusCode :: "nat option"
  jsonBody :: "(string \<times> string) list option"
  destroyed :: bool

definition safeSetCorsHeaders :: "sink \<Rightarrow> bool \<times> sink" where
  "safeSetCorsHeaders res =
     (if \<not> headersSent res
      then (True, res\<lparr> sink_headers := sink_headers res @
               [ (''Access-Control-Allow-Origin'', ''*''),
                 (''Access-Control-Allow-Methods'', ''GET, POST, OPTIONS''),
                 (''Access-Control-Allow-Headers'', ''Content-Type, x-proxy-secret'') ] \<rparr>)
      else (False, res))"

definition setHeader :: "sink \<Rightarrow> string \<Rightarrow> string \<Rightarrow> sink" where
  "setHeader res name v = res\<lparr> sink_headers := sink_headers res @ [(name, v)] \<rparr>"

definition safeSendError :: "sink \<Rightarrow> nat \<Rightarrow> (string \<times> string) list \<Rightarrow> bool \<times> sink" where
  "safeSendError res code errorData =
     (if \<not> headersSent res
      then (True, (snd (safeSetCorsHeaders res))
                    \<lparr> statusCode := Some code, jsonBody := Some errorData, headersSent := True \<rparr>)
      else (False, res))"

record stream_state =
  started :: bool
  finished :: bool
  errored :: bool
  aborted :: bool
  startTime_st :: int

text \<open>The promise returned by the relay: pending, or settled once and for all.\<close>

datatype promise = Pending | Resolved bool | Rejected string

text \<open>
  One relay in progress: its \<open>streamState\<close>, whether the 30 second timer is still set,
  the promise, whether the upstream body was destroyed, and the sink.
\<close>

record relay =
  streamState :: stream_state
  streamTimeout :: bool
  outcome :: promise
  body_destroyed :: bool
  res :: sink

definition resolve :: "relay \<Rightarrow> bool \<Rightarrow> relay" where
  "resolve r v = (if outcome r = Pending then r\<lparr> outcome := Resolved v \<rparr> else r)"

definition reject :: "relay \<Rightarrow> string \<Rightarrow> relay" where
  "reject r error = (if outcome r = Pending then r\<lparr> outcome := Rejected error \<rparr> else r)"

definition clearTimeout :: "relay \<Rightarrow> relay" where
  "clearTimeout r = r\<lparr> streamTimeout := False \<rparr>"

text \<open>The callback given to \<^verbatim>\<open>setTimeout\<close>.\<close>

definition on_timeout :: "relay \<Rightarrow> relay" where
  "on_timeout r =
     (if \<not> finished (streamState r) \<and> \<not> errored (streamState r)
      then reject (r\<lparr> streamState := (streamState r)\<lparr> aborted := True \<rparr>, body_destroyed := True \<rparr>)
             ''Stream timeout''
      else r)"

text \<open>The listeners on the upstream body (\<open>data\<close>, \<open>end\<close>, \<open>error\<close>) and on the sink (\<open>error\<close>, \<open>close\<close>).\<close>

definition on_data :: "relay \<Rightarrow> relay" where
  "on_data r =
     (if \<not> started (streamState r) then r\<lparr> streamState := (streamState r)\<lparr> started := True \<rparr> \<rparr> else r)"

definition on_end :: "relay \<Rightarrow> relay" where
  "on_end r =
     (let r1 = clearTimeout r
      in if \<not> errored (streamState r1) \<and> \<not> aborted (streamState r1)
         then resolve (r1\<lparr> streamState := (streamState r1)\<lparr> finished := True \<rparr> \<rparr>) True
         else r1)"

definition on_body_error :: "relay \<Rightarrow> string \<Rightarrow> relay" where
  "on_body_error r error =
     (let r1 = clearTimeout r;
          r2 = r1\<lparr> streamState := (streamState r1)\<lparr> errored := True \<rparr> \<rparr>;
          r3 = (if started (streamState r2)
                then (if \<not> destroyed (res r2) then r2\<lparr> res := (res r2)\<lparr> destroyed := True \<rparr> \<rparr> else r2)
                else r2)
      in reject r3 error)"

definition on_res_error :: "relay \<Rightarrow> string \<Rightarrow> relay" where
  "on_res_error r error =
     (let r1 = clearTimeout r;
          r2 = r1\<lparr> streamState := (streamState r1)\<lparr> errored := True \<rparr> \<rparr>;
          r3 = (if \<not> body_destroyed r2 then r2\<lparr> body_destroyed := True \<rparr> else r2)
      in reject r3 error)"

definition on_res_close :: "relay \<Rightarrow> relay" where
  "on_res_close r =
     (let r1 = clearTimeout r
      in if \<not> finished (streamState r1)
         then (if \<not> body_destroyed r1 then r1\<lparr> body_destroyed := True \<rparr> else r1)
         else r1)"

datatype stream_event = Data | End | BodyError string | ResError string | ResClose

fun handle :: "relay \<Rightarrow> stream_event \<Rightarrow> relay" where
  "handle r Data = on_data r"
| "handle r End = on_end r"
| "handle r (BodyError error) = on_body_error r error"
| "handle r (ResError error) = on_res_error r error"
| "handle r ResClose = on_res_close r"

text \<open>
  The \<^verbatim>\<open>catch\<close> block around the set-up: the function returns \<^verbatim>\<open>false\<close>, after an
  error response if the sink can still take one.
\<close>

definition setup_failed :: "relay \<Rightarrow> string \<Rightarrow> relay" where
  "setup_failed r message =
     (let r1 = (if streamTimeout r then clearTimeout r else r);
          r2 = (if \<not> started (streamState r1) \<and> \<not> headersSent (res r1)
                then r1\<lparr> res := snd (safeSendError (res r1) 500
                        [(''error'', ''Stream setup failed''), (''details'', message)]) \<rparr>
                else r1)
      in r2\<lparr> outcome := Resolved False \<rparr>)"

text \<open>
  The synchronous part of \<^verbatim>\<open>robustStreamResponse\<close>: the check of the sink, the headers,
  the timer, the listeners and the call of \<^verbatim>\<open>pipe\<close>, which throws \<open>pipeError\<close> if that is
  not \<open>None\<close>. The second component tells whether the listeners were registered.
\<close>

definition relay_setup :: "upstream_response \<Rightarrow> sink \<Rightarrow> int \<Rightarrow> string option \<Rightarrow> relay \<times> bool" where
  "relay_setup elevenLabsResponse res0 now pipeError =
     (let r = \<lparr> streamState = \<lparr> started = False, finished = False, errored = False,
                                aborted = False, startTime_st = now \<rparr>,
                streamTimeout = False, outcome = Pending, body_destroyed = False, res = res0 \<rparr>
      in if headersSent res0
         then (setup_failed r ''Response headers already sent - cannot start stream'', False)
         else
           (case safeSetCorsHeaders res0 of
              (False, res1) \<Rightarrow> (setup_failed (r\<lparr> res := res1 \<rparr>) ''Failed to set CORS headers'', False)
            | (True, res1) \<Rightarrow>
                (let res2 = setHeader res1 ''Content-Type''
                              (case contentType elevenLabsResponse of
                                 None \<Rightarrow> ''audio/mpeg''
                               | Some t \<Rightarrow> if t = [] then ''audio/mpeg'' else t);
                     res3 = (case contentLength elevenLabsResponse of
                               None \<Rightarrow> res2
                             | Some l \<Rightarrow> if l = [] then res2 else setHeader res2 ''Content-Length'' l);
                     r1 = r\<lparr> res := res3, streamTimeout := True \<rparr>
                 in case pipeError of
                      None \<Rightarrow> (r1, True)
                    | Some error \<Rightarrow>
                        (let r2 = clearTimeout r1;
                             r3 = r2\<lparr> streamState := (streamState r2)\<lparr> errored := True \<rparr> \<rparr>
                         in (reject r3 error, True)))))"

text \<open>
  The event loop after the set-up. An event comes with the milliseconds elapsed since
  the timer was set; the timer is set for 30000 ms, and its callback runs then if no
  listener has cleared it.
\<close>

definition stream_timeout_ms :: int where
  "stream_timeout_ms = 30000"

definition relay_events :: "relay \<Rightarrow> stream_event list \<Rightarrow> relay" where
  "relay_events r events = foldl handle r events"

definition fire_timer :: "relay \<Rightarrow> relay" where
  "fire_timer r = (if streamTimeout r then (on_timeout r)\<lparr> streamTimeout := False \<rparr> else r)"

definition before_deadline :: "int \<times> stream_event \<Rightarrow> bool" where
  "before_deadline timed = (fst timed < stream_timeout_ms)"

definition relay_at_deadline ::
  "upstream_response \<Rightarrow> sink \<Rightarrow> int \<Rightarrow> string option \<Rightarrow> (int \<times> stream_event) list \<Rightarrow> relay" where
  "relay_at_deadline elevenLabsResponse res0 now pipeError events =
     relay_events (fst (relay_setup elevenLabsResponse res0 now pipeError))
       (map snd (takeWhile before_deadline events))"

definition robustStreamResponse ::
  "upstream_response \<Rightarrow> sink \<Rightarrow> int \<Rightarrow> string option \<Rightarrow> (int \<times> stream_event) list \<Rightarrow> relay" where
  "robustStreamResponse elevenLabsResponse res0 now pipeError events =
     (case relay_setup elevenLabsResponse res0 now pipeError of
        (r, False) \<Rightarrow> r
      | (r, True) \<Rightarrow>
          relay_events
            (fire_timer (relay_at_deadline elevenLabsResponse res0 now pipeError events))
            (map snd (dropWhile before_deadline events)))"

section \<open>Concrete scenarios\<close>

text \<open>
  Two operations on a call counter: one that always throws and one that always
  returns. The counter tells how often the operation was invoked.
\<close>

definition failing_call :: "nat \<Rightarrow> (string + unit) \<times> nat" where
  "failing_call calls = (Inl ''connect ECONNREFUSED'', Suc calls)"

definition working_call :: "nat \<Rightarrow> (string + unit) \<times> nat" where
  "working_call calls = (Inr (), Suc calls)"

text \<open>
  A breaker with threshold 3 and reset timeout 30000 ms, after one failure, after three
  failures (the last at time 310), and after a successful probe at time 40000.
\<close>

definition fresh_breaker :: CircuitBreaker where
  "fresh_breaker = new_CircuitBreaker (Some 3) (Some 30000) None 0"

definition once_failed_breaker :: CircuitBreaker where
  "once_failed_breaker = breaker_after (execute fresh_breaker 100 110 failing_call 0)"

definition tripped_breaker :: CircuitBreaker where
  "tripped_breaker =
     breaker_after (execute
       (breaker_after (execute once_failed_breaker 200 210 failing_call 1))
       300 310 failing_call 2)"

definition half_open_breaker :: CircuitBreaker where
  "half_open_breaker = breaker_after (execute tripped_breaker 40000 40010 working_call 3)"

text \<open>
  Admission control with a limit of 3 per voice, switched on and switched off, and the
  limited manager with two and with three requests of one voice in flight.
\<close>

definition limited_manager :: ConcurrencyManager where
  "limited_manager = new_ConcurrencyManager (Some 3) True False"

definition unlimited_manager :: ConcurrencyManager where
  "unlimited_manager = new_ConcurrencyManager (Some 3) False False"

definition two_in_flight :: ConcurrencyManager where
  "two_in_flight = startRequest (startRequest limited_manager ''voiceA'' ''req_1'') ''voiceA'' ''req_2''"

definition three_in_flight :: ConcurrencyManager where
  "three_in_flight = startRequest two_in_flight ''voiceA'' ''req_3''"

text \<open>
  A run of session lookups, each with its session id, clock and random draw; it gives
  the profiles returned, in order, and the session map at the end.
\<close>

fun lookups ::
  "(string \<rightharpoonup> session) \<Rightarrow> (string \<times> int \<times> real) list \<Rightarrow> browser_profile list \<times> (string \<rightharpoonup> session)" where
  "lookups activeSessions [] = ([], activeSessions)"
| "lookups activeSessions ((sessionId, now, u) # rest) =
     (case getBrowserProfileForSession activeSessions now u sessionId of
        (p, sessions1) \<Rightarrow>
          (case lookups sessions1 rest of (ps, sessions2) \<Rightarrow> (p # ps, sessions2)))"

text \<open>The session map after a first lookup at time 1000 with the draw 1/2.\<close>

definition first_session :: "string \<rightharpoonup> session" where
  "first_session = snd (getBrowserProfileForSession Map.empty 1000 (1/2) ''voiceA_0a1b2c3d'')"

text \<open>
  The request that one attempt sends, and the relation between two session maps that
  hold the same profile and start time under every key.
\<close>

definition fetch_request_for :: "string \<Rightarrow> string \<Rightarrow> int \<Rightarrow> browser_profile \<Rightarrow> fetch_request" where
  "fetch_request_for voiceId requestBody timeout browserProfile =
     \<lparr> url = ''https://api.elevenlabs.io/v1/text-to-speech/'' @ voiceId @ ''?allow_unauthenticated=1'',
       request_headers = (''Content-Type'', ''application/json'') # headers browserProfile,
       request_body = requestBody,
       request_timeout = timeout \<rparr>"

definition same_identities :: "(string \<rightharpoonup> session) \<Rightarrow> (string \<rightharpoonup> session) \<Rightarrow> bool" where
  "same_identities m m' =
     (\<forall>k. map_option profile (m' k) = map_option profile (m k)
        \<and> map_option startTime (m' k) = map_option startTime (m k))"

text \<open>
  A stand-in for the digest, which maps every input to one fixed hex string; three
  upstream answers; and worlds with no session and no request sent, whose upstream
  refuses every connection, answers 429 to everything, answers 500 to everything,
  resets the first connection and answers 500 afterwards, or answers 200 to everything.
\<close>

definition constant_digest :: "string \<Rightarrow> string" where
  "constant_digest s = ''d41d8cd98f00b204e9800998ecf8427e''"

definition server_error :: upstream_response where
  "server_error = \<lparr> status = 500, contentType = Some ''application/json'', contentLength = None,
                     errorBody = ''{}'' \<rparr>"

definition rate_limited :: upstream_response where
  "rate_limited = \<lparr> status = 429, contentType = Some ''application/json'', contentLength = None,
                     errorBody = ''{}'' \<rparr>"

definition audio_response :: upstream_response where
  "audio_response = \<lparr> status = 200, contentType = Some ''audio/mpeg'', contentLength = None,
                       errorBody = [] \<rparr>"

definition unreachable_world :: api_world where
  "unreachable_world = \<lparr> sessions = Map.empty,
       upstream = (\<lambda>k. Inl ''connect ECONNREFUSED 10.0.0.1:8080''), sent = [] \<rparr>"

definition rate_limited_world :: api_world where
  "rate_limited_world = \<lparr> sessions = Map.empty, upstream = (\<lambda>k. Inr rate_limited), sent = [] \<rparr>"

definition server_error_world :: api_world where
  "server_error_world = \<lparr> sessions = Map.empty, upstream = (\<lambda>k. Inr server_error), sent = [] \<rparr>"

definition reset_then_500_world :: api_world where
  "reset_then_500_world = \<lparr> sessions = Map.empty,
       upstream = (\<lambda>k. if k = 0 then Inl ''read ECONNRESET'' else Inr server_error), sent = [] \<rparr>"

definition healthy_world :: api_world where
  "healthy_world = \<lparr> sessions = Map.empty, upstream = (\<lambda>k. Inr audio_response), sent = [] \<rparr>"

definition rate_limited_then_ok_world :: api_world where
  "rate_limited_then_ok_world = \<lparr> sessions = Map.empty,
       upstream = (\<lambda>k. if k < 2 then Inr rate_limited else Inr audio_response), sent = [] \<rparr>"

text \<open>
  The last errors after which \<^verbatim>\<open>callElevenLabsAPI\<close> removes the session: those that reach
  the third branch of its final \<^verbatim>\<open>if\<close> chain.
\<close>

definition clears_session :: "string \<Rightarrow> bool" where
  "clears_session message =
     (\<not> (str_includes message ''ECONNREFUSED'' \<or> str_includes message ''ENOTFOUND'')
      \<and> \<not> str_includes message ''timeout''
      \<and> (str_includes message ''429'' \<or> str_includes message ''Too Many Requests''))"

text \<open>Whether a call of \<^verbatim>\<open>callElevenLabsAPI\<close> with this result leaves the session in place.\<close>

definition session_kept :: "string + upstream_response \<Rightarrow> bool" where
  "session_kept result = (case result of Inr response \<Rightarrow> True | Inl message \<Rightarrow> \<not> clears_session message)"

text \<open>Two request bodies that agree on their first 100 characters and differ after them.\<close>

definition long_body_x :: string where
  "long_body_x = replicate 100 CHR ''a'' @ ''x''"

definition long_body_y :: string where
  "long_body_y = replicate 100 CHR ''a'' @ ''y''"

text \<open>A sink that has sent nothing yet, and one whose headers have gone out.\<close>

definition open_sink :: sink where
  "open_sink = \<lparr> headersSent = False, sink_headers = [], statusCode = None, jsonBody = None,
                  destroyed = False \<rparr>"

definition committed_sink :: sink where
  "committed_sink = \<lparr> headersSent = True, sink_headers = [(''Content-Type'', ''application/json'')],
                       statusCode = Some 200, jsonBody = None, destroyed = False \<rparr>"

text \<open>
  What holds of a relay once its listeners are registered: while the timer is set the
  promise is pending and no flag but \<open>started\<close> is up; \<open>finished\<close> and a promise resolved
  to \<open>true\<close> go together and exclude \<open>aborted\<close>; a rejected promise has \<open>errored\<close> or
  \<open>aborted\<close> up; and the promise is never resolved to \<open>false\<close>. Every listener but the
  one for \<open>data\<close> clears the timer.
\<close>

definition relay_inv :: "relay \<Rightarrow> bool" where
  "relay_inv r =
     ((streamTimeout r \<longrightarrow> outcome r = Pending \<and> \<not> finished (streamState r)
          \<and> \<not> errored (streamState r) \<and> \<not> aborted (streamState r))
      \<and> (finished (streamState r) \<longrightarrow> outcome r = Resolved True \<and> \<not> aborted (streamState r))
      \<and> (outcome r = Resolved True \<longrightarrow> finished (streamState r))
      \<and> (outcome r = Pending \<longrightarrow> \<not> errored (streamState r) \<and> \<not> aborted (streamState r))
      \<and> ((\<exists>e. outcome r = Rejected e) \<longrightarrow> errored (streamState r) \<or> aborted (streamState r))
      \<and> outcome r \<noteq> Resolved False)"

definition clears_timer :: "stream_event \<Rightarrow> bool" where
  "clears_timer ev = (ev \<noteq> Data)"

section \<open>Properties of the circuit breaker\<close>

lemmas breaker_defs = execute_def execute_enter_def execute_success_def execute_failure_def
  changeState_def breaker_after_def world_after_def new_CircuitBreaker_def or_default_def js_num_def

lemma once_failed_breaker_eval:
  "once_failed_breaker = \<lparr> failureThreshold = 3, resetTimeout = 30000, monitoringPeriod = 10000,
     state = CLOSED, failures = 1, lastFailureTime = Some 110, successCount = 0, requestCount = 1,
     lastRequestTime = Some 100,
     stats = \<lparr> totalRequests = 1, totalFailures = 1, totalSuccesses = 0,
               circuitOpenCount = 0, lastStateChange = 0 \<rparr> \<rparr>"
  by (simp add: once_failed_breaker_def fresh_breaker_def failing_call_def breaker_defs)

lemma tripped_breaker_eval:
  "tripped_breaker = \<lparr> failureThreshold = 3, resetTimeout = 30000, monitoringPeriod = 10000,
     state = OPEN, failures = 3, lastFailureTime = Some 310, successCount = 0, requestCount = 3,
     lastRequestTime = Some 300,
     stats = \<lparr> totalRequests = 3, totalFailures = 3, totalSuccesses = 0,
               circuitOpenCount = 1, lastStateChange = 310 \<rparr> \<rparr>"
  by (simp add: tripped_breaker_def once_failed_breaker_eval failing_call_def breaker_defs)

lemma half_open_breaker_eval:
  "half_open_breaker = \<lparr> failureThreshold = 3, resetTimeout = 30000, monitoringPeriod = 10000,
     state = HALF_OPEN, failures = 3, lastFailureTime = Some 310, successCount = 1, requestCount = 4,
     lastRequestTime = Some 40000,
     stats = \<lparr> totalRequests = 4, totalFailures = 3, totalSuccesses = 1,
               circuitOpenCount = 1, lastStateChange = 40000 \<rparr> \<rparr>"
  by (simp add: half_open_breaker_def tripped_breaker_eval working_call_def breaker_defs)

lemma open_message_0: "open_message 0 = ''Circuit breaker is OPEN - retry in 0 seconds''"
  by (simp add: open_message_def show_int_def show_nat.simps digit_def)

text \<open>
  A breaker that is not CLOSED has reached its failure threshold: \<open>failures\<close> is set back
  to 0 only on the way to CLOSED. This holds under every interleaving of the parts of
  \<^verbatim>\<open>execute\<close>.
\<close>

lemma breaker_reachable_inv:
  "breaker_reachable cb \<Longrightarrow> state cb \<noteq> CLOSED \<Longrightarrow> failureThreshold cb \<le> int (failures cb)"
proof (induction rule: breaker_reachable.induct)
  case (constructed threshold timeout period now)
  then show ?case by (simp add: new_CircuitBreaker_def)
next
  case (entered cb now)
  then show ?case
    by (auto simp: execute_enter_def changeState_def Let_def split: if_splits)
next
  case (succeeded cb now)
  then show ?case
    by (auto simp: execute_success_def changeState_def Let_def split: if_splits)
next
  case (failed cb now)
  then show ?case
    by (auto simp: execute_failure_def changeState_def Let_def split: if_splits)
next
  case (was_reset cb now)
  then show ?case by (simp add: reset_def changeState_def)
qed

lemma execute_reachable:
  assumes "breaker_reachable cb"
  shows "breaker_reachable (breaker_after (execute cb now settled operation w))"
proof -
  have e: "breaker_reachable (fst (execute_enter cb now))"
    using assms by (rule breaker_reachable.entered)
  show ?thesis
  proof (cases "snd (execute_enter cb now)")
    case None
    then show ?thesis
      using breaker_reachable.succeeded[OF e, of settled] breaker_reachable.failed[OF e, of settled]
      by (auto simp: execute_def breaker_after_def split: prod.splits sum.splits option.splits)
  next
    case (Some err)
    then show ?thesis using e
      by (auto simp: execute_def breaker_after_def split: prod.splits)
  qed
qed

lemma fresh_breaker_reachable: "breaker_reachable fresh_breaker"
  unfolding fresh_breaker_def by (rule breaker_reachable.constructed)

lemma half_open_breaker_reachable: "breaker_reachable half_open_breaker"
  unfolding half_open_breaker_def tripped_breaker_def once_failed_breaker_def
  by (intro execute_reachable fresh_breaker_reachable)

text \<open>
  C1, as the code has it. A call of \<^verbatim>\<open>execute\<close> in state OPEN: while
  \<open>now - lastFailureTime \<le> resetTimeout\<close> (the boundary included) it throws the
  breaker-open error, whose message carries the remaining seconds, does not invoke the
  operation (the world is untouched) and leaves the state OPEN; once
  \<open>now - lastFailureTime > resetTimeout\<close> it first moves to HALF_OPEN with
  \<open>successCount = 0\<close> and then invokes the operation, whose result it passes on after
  the bookkeeping of the HALF_OPEN state.
\<close>

theorem execute_open_gate:
  assumes "state cb = OPEN"
  shows "(now - js_num (lastFailureTime cb) \<le> resetTimeout cb \<longrightarrow>
            fst (execute cb now settled operation w) =
              Inl (open_message (ceil_seconds (resetTimeout cb - (now - js_num (lastFailureTime cb)))))
          \<and> world_after (execute cb now settled operation w) = w
          \<and> state (breaker_after (execute cb now settled operation w)) = OPEN)
       \<and> (now - js_num (lastFailureTime cb) > resetTimeout cb \<longrightarrow>
            state (fst (execute_enter cb now)) = HALF_OPEN
          \<and> successCount (fst (execute_enter cb now)) = 0
          \<and> fst (execute cb now settled operation w) = fst (operation w)
          \<and> world_after (execute cb now settled operation w) = snd (operation w)
          \<and> breaker_after (execute cb now settled operation w) =
              (if isl (fst (operation w))
               then execute_failure (fst (execute_enter cb now)) settled
               else execute_success (fst (execute_enter cb now)) settled))"
  using assms
  by (auto simp: execute_def execute_enter_def changeState_def breaker_after_def world_after_def Let_def
     split: prod.splits sum.splits option.splits)

text \<open>
  The tripped breaker (last failure at 310) called at 20000 throws with 11 seconds
  left and the call counter stays at 3; called at 30311 it probes.
\<close>

theorem execute_open_gate_witness:
  "state tripped_breaker = OPEN
   \<and> fst (execute tripped_breaker 20000 20010 working_call 3) =
       Inl ''Circuit breaker is OPEN - retry in 11 seconds''
   \<and> world_after (execute tripped_breaker 20000 20010 working_call 3) = 3
   \<and> state (breaker_after (execute tripped_breaker 20000 20010 working_call 3)) = OPEN
   \<and> state (fst (execute_enter tripped_breaker 30311)) = HALF_OPEN
   \<and> fst (execute tripped_breaker 30311 30320 working_call 3) = Inr ()
   \<and> world_after (execute tripped_breaker 30311 30320 working_call 3) = 4"
  using execute_open_gate [where cb = tripped_breaker and now = 20000 and settled = 20010
          and operation = working_call and w = 3]
        execute_open_gate [where cb = tripped_breaker and now = 30311 and settled = 30320
          and operation = working_call and w = 3]
  by (simp add: tripped_breaker_eval js_num_def working_call_def ceil_seconds_def
        open_message_def show_int_def show_nat.simps digit_def)

text \<open>
  C1 as stated fails at the boundary: exactly \<open>resetTimeout\<close> after the last failure
  the timeout has elapsed, yet the call still throws (with 0 seconds left) and the
  operation is not invoked.
\<close>

theorem execute_open_boundary_counterexample:
  "state tripped_breaker = OPEN
   \<and> 30310 - js_num (lastFailureTime tripped_breaker) = resetTimeout tripped_breaker
   \<and> fst (execute tripped_breaker 30310 30320 working_call 3) =
       Inl ''Circuit breaker is OPEN - retry in 0 seconds''
   \<and> world_after (execute tripped_breaker 30310 30320 working_call 3) = 3
   \<and> state (breaker_after (execute tripped_breaker 30310 30320 working_call 3)) = OPEN"
  by (simp add: tripped_breaker_eval breaker_defs working_call_def ceil_seconds_def open_message_0)

text \<open>
  C5, as the code has it. A call of \<^verbatim>\<open>execute\<close> in state CLOSED: when the operation
  throws, \<open>failures\<close> goes up by one, \<open>lastFailureTime\<close> is the time of the failure, and
  the state becomes OPEN exactly when the new count reaches \<open>failureThreshold\<close>; when
  the operation returns, the state stays CLOSED and \<open>failures\<close> keeps its value.
\<close>

theorem execute_closed:
  assumes "state cb = CLOSED"
  shows "(isl (fst (operation w)) \<longrightarrow>
            failures (breaker_after (execute cb now settled operation w)) = failures cb + 1
          \<and> lastFailureTime (breaker_after (execute cb now settled operation w)) = Some settled
          \<and> state (breaker_after (execute cb now settled operation w)) =
              (if failureThreshold cb \<le> int (failures cb) + 1 then OPEN else CLOSED))
       \<and> (\<not> isl (fst (operation w)) \<longrightarrow>
            failures (breaker_after (execute cb now settled operation w)) = failures cb
          \<and> state (breaker_after (execute cb now settled operation w)) = CLOSED)"
  using assms
  by (auto simp: execute_def execute_enter_def execute_failure_def execute_success_def changeState_def
        breaker_after_def Let_def split: prod.splits sum.splits option.splits)

theorem execute_closed_witness:
  "state once_failed_breaker = CLOSED
   \<and> failures (breaker_after (execute once_failed_breaker 200 210 failing_call 1)) = 2
   \<and> lastFailureTime (breaker_after (execute once_failed_breaker 200 210 failing_call 1)) = Some 210
   \<and> state (breaker_after (execute once_failed_breaker 200 210 failing_call 1)) = CLOSED
   \<and> failures (breaker_after (execute once_failed_breaker 200 210 working_call 1)) = 1
   \<and> state (breaker_after (execute once_failed_breaker 200 210 working_call 1)) = CLOSED"
  using execute_closed [where cb = once_failed_breaker and operation = failing_call and w = 1
          and now = 200 and settled = 210]
        execute_closed [where cb = once_failed_breaker and operation = working_call and w = 1
          and now = 200 and settled = 210]
  by (simp add: once_failed_breaker_eval failing_call_def working_call_def)

text \<open>
  C5 as stated fails: a successful call in state CLOSED after one failure leaves
  \<open>failures\<close> at 1, not at 0.
\<close>

theorem closed_success_counterexample:
  "state once_failed_breaker = CLOSED
   \<and> fst (execute once_failed_breaker 200 210 working_call 1) = Inr ()
   \<and> failures (breaker_after (execute once_failed_breaker 200 210 working_call 1)) = 1"
  by (simp add: once_failed_breaker_eval breaker_defs working_call_def)

text \<open>
  C7, as the code has it. A call of \<^verbatim>\<open>execute\<close> on a reachable breaker in state
  HALF_OPEN: when the operation throws, the state is OPEN again, \<open>lastFailureTime\<close> is
  the time of that failure and \<open>circuitOpenCount\<close> has gone up by one; after two calls
  in a row whose operations return, the state is CLOSED and \<open>failures\<close> is 0, while
  \<open>successCount\<close> is not set back (it is 2, or one more than it was).
\<close>

theorem execute_half_open:
  assumes "breaker_reachable cb" and "state cb = HALF_OPEN"
  shows "(isl (fst (operation w)) \<longrightarrow>
            state (breaker_after (execute cb now settled operation w)) = OPEN
          \<and> lastFailureTime (breaker_after (execute cb now settled operation w)) = Some settled
          \<and> circuitOpenCount (stats (breaker_after (execute cb now settled operation w))) =
              circuitOpenCount (stats cb) + 1)
       \<and> (\<not> isl (fst (operation w)) \<and>
          \<not> isl (fst (next_operation (world_after (execute cb now settled operation w)))) \<longrightarrow>
            state (breaker_after (execute (breaker_after (execute cb now settled operation w))
                     next_now next_settled next_operation (world_after (execute cb now settled operation w)))) = CLOSED
          \<and> failures (breaker_after (execute (breaker_after (execute cb now settled operation w))
                     next_now next_settled next_operation (world_after (execute cb now settled operation w)))) = 0
          \<and> successCount (breaker_after (execute (breaker_after (execute cb now settled operation w))
                     next_now next_settled next_operation (world_after (execute cb now settled operation w)))) =
              (if successCount cb = 0 then 2 else successCount cb + 1))"
proof -
  have inv: "failureThreshold cb \<le> int (failures cb)"
    using breaker_reachable_inv [OF assms(1)] assms(2) by simp
  show ?thesis
    using assms(2) inv
    by (auto simp: execute_def execute_enter_def execute_failure_def execute_success_def changeState_def
        breaker_after_def world_after_def Let_def split: prod.splits sum.splits option.splits)
qed

theorem execute_half_open_witness:
  "breaker_reachable half_open_breaker \<and> state half_open_breaker = HALF_OPEN
   \<and> state (breaker_after (execute half_open_breaker 50000 50010 failing_call 4)) = OPEN
   \<and> lastFailureTime (breaker_after (execute half_open_breaker 50000 50010 failing_call 4)) = Some 50010
   \<and> circuitOpenCount (stats (breaker_after (execute half_open_breaker 50000 50010 failing_call 4))) = 2
   \<and> state (breaker_after (execute (breaker_after (execute half_open_breaker 50000 50010 working_call 4))
               60000 60010 working_call 5)) = CLOSED
   \<and> failures (breaker_after (execute (breaker_after (execute half_open_breaker 50000 50010 working_call 4))
               60000 60010 working_call 5)) = 0"
  using execute_half_open [where cb = half_open_breaker and operation = failing_call and w = 4
          and next_operation = working_call and now = 50000 and settled = 50010
          and next_now = 60000 and next_settled = 60010]
        execute_half_open [where cb = half_open_breaker and operation = working_call and w = 4
          and next_operation = working_call and now = 50000 and settled = 50010
          and next_now = 60000 and next_settled = 60010]
        half_open_breaker_reachable
  by (simp add: half_open_breaker_eval failing_call_def working_call_def breaker_defs)

text \<open>
  C7 as stated fails in its last part: the probe that moves the tripped breaker to
  HALF_OPEN succeeds, the next call succeeds too and closes the breaker, and
  \<open>successCount\<close> is then 2, not 0.
\<close>

theorem half_open_recovery_counterexample:
  "state (fst (execute_enter tripped_breaker 40000)) = HALF_OPEN
   \<and> fst (execute tripped_breaker 40000 40010 working_call 3) = Inr ()
   \<and> fst (execute half_open_breaker 50000 50010 working_call 4) = Inr ()
   \<and> state (breaker_after (execute half_open_breaker 50000 50010 working_call 4)) = CLOSED
   \<and> successCount (breaker_after (execute half_open_breaker 50000 50010 working_call 4)) = 2"
  by (simp add: half_open_breaker_eval tripped_breaker_eval breaker_defs working_call_def)

section \<open>Properties of admission control\<close>

lemmas manager_defs = new_ConcurrencyManager_def startRequest_def finishRequest_def canProcessRequest_def
  activeCount_def or_default_def

lemma two_in_flight_eval:
  "two_in_flight = \<lparr> activeRequests = [''voiceA'' \<mapsto> {|''req_2'', ''req_1''|}],
       maxConcurrentPerVoice = 3, requestCounter = 0, concurrencyEnabled = True,
       stats_cm = \<lparr> totalRequests_cm = 2, activeRequests_cm = 2, rejectedRequests = 0 \<rparr> \<rparr>"
  by (simp add: two_in_flight_def limited_manager_def manager_defs)

lemma three_in_flight_eval:
  "three_in_flight = \<lparr> activeRequests = [''voiceA'' \<mapsto> {|''req_3'', ''req_2'', ''req_1''|}],
       maxConcurrentPerVoice = 3, requestCounter = 0, concurrencyEnabled = True,
       stats_cm = \<lparr> totalRequests_cm = 3, activeRequests_cm = 3, rejectedRequests = 0 \<rparr> \<rparr>"
  by (simp add: three_in_flight_def two_in_flight_eval startRequest_def)

lemma activeCount_finish:
  assumes "activeRequests cm voiceId = Some requests" and "requestId |\<in>| requests"
  shows "activeCount (finishRequest cm voiceId requestId) voiceId = fcard requests - 1"
proof -
  have k: "fcard (requests |-| {|requestId|}) = fcard requests - 1"
    using assms(2) by (rule fcard_fminus_fsingleton)
  show ?thesis
  proof (cases "fcard (requests |-| {|requestId|}) = 0")
    case True
    then have "activeRequests (finishRequest cm voiceId requestId) voiceId = None"
      using assms(1) by (simp add: finishRequest_def Let_def del: fcard_0_eq)
    then show ?thesis using True k by (simp add: activeCount_def)
  next
    case False
    then have "activeRequests (finishRequest cm voiceId requestId) voiceId =
        Some (requests |-| {|requestId|})"
      using assms(1) by (simp add: finishRequest_def Let_def del: fcard_0_eq)
    then show ?thesis using k by (simp add: activeCount_def)
  qed
qed

text \<open>
  C3. With admission control enabled, \<^verbatim>\<open>canProcessRequest\<close> answers true exactly when
  the number of requests in flight for the voice is below \<open>maxConcurrentPerVoice\<close>; with
  it disabled the answer is always true. So when the voice has as many requests in
  flight as the maximum the next one is refused, and after \<^verbatim>\<open>finishRequest\<close> of any one
  of them the next one is admitted.
\<close>

theorem canProcessRequest_iff:
  "(concurrencyEnabled cm \<longrightarrow>
      fst (canProcessRequest cm voiceId) = (int (activeCount cm voiceId) < maxConcurrentPerVoice cm))
   \<and> (\<not> concurrencyEnabled cm \<longrightarrow> fst (canProcessRequest cm voiceId) = True)
   \<and> (concurrencyEnabled cm \<and> activeRequests cm voiceId = Some requests
        \<and> int (fcard requests) = maxConcurrentPerVoice cm \<and> requestId |\<in>| requests \<longrightarrow>
          fst (canProcessRequest cm voiceId) = False
        \<and> fst (canProcessRequest (finishRequest cm voiceId requestId) voiceId) = True)"
proof -
  have a: "concurrencyEnabled cm \<Longrightarrow>
      fst (canProcessRequest cm voiceId) = (int (activeCount cm voiceId) < maxConcurrentPerVoice cm)"
    by (simp add: canProcessRequest_def Let_def)
  have b: "\<not> concurrencyEnabled cm \<Longrightarrow> fst (canProcessRequest cm voiceId) = True"
    by (simp add: canProcessRequest_def)
  have c: "fst (canProcessRequest cm voiceId) = False
        \<and> fst (canProcessRequest (finishRequest cm voiceId requestId) voiceId) = True"
    if en: "concurrencyEnabled cm" and rs: "activeRequests cm voiceId = Some requests"
      and full: "int (fcard requests) = maxConcurrentPerVoice cm" and mem: "requestId |\<in>| requests"
  proof -
    have pos: "0 < fcard requests"
      using mem by (metis fcard_0_eq fempty_iff gr0I)
    have en': "concurrencyEnabled (finishRequest cm voiceId requestId)"
      using en rs by (simp add: finishRequest_def Let_def)
    have mx: "maxConcurrentPerVoice (finishRequest cm voiceId requestId) = maxConcurrentPerVoice cm"
      using rs by (simp add: finishRequest_def Let_def)
    have "fst (canProcessRequest cm voiceId) = False"
      using en rs full by (simp add: canProcessRequest_def activeCount_def Let_def)
    moreover have "fst (canProcessRequest (finishRequest cm voiceId requestId) voiceId) = True"
      using en' mx activeCount_finish [OF rs mem] full pos
      by (simp add: canProcessRequest_def Let_def)
    ultimately show ?thesis by simp
  qed
  show ?thesis using a b c by blast
qed

text \<open>
  With a maximum of 3: three requests in flight refuse a fourth, finishing one of them
  admits the next, two in flight admit a third, and the disabled manager admits.
\<close>

theorem canProcessRequest_iff_witness:
  "concurrencyEnabled three_in_flight
   \<and> activeCount three_in_flight ''voiceA'' = 3
   \<and> fst (canProcessRequest three_in_flight ''voiceA'') = False
   \<and> fst (canProcessRequest (finishRequest three_in_flight ''voiceA'' ''req_2'') ''voiceA'') = True
   \<and> fst (canProcessRequest two_in_flight ''voiceA'') = True
   \<and> \<not> concurrencyEnabled unlimited_manager
   \<and> fst (canProcessRequest unlimited_manager ''voiceA'') = True"
  using canProcessRequest_iff [where cm = three_in_flight and voiceId = "''voiceA''"
          and requests = "{|''req_3'', ''req_2'', ''req_1''|}" and requestId = "''req_2''"]
        canProcessRequest_iff [where cm = two_in_flight and voiceId = "''voiceA''"]
        canProcessRequest_iff [where cm = unlimited_manager and voiceId = "''voiceA''"]
  by (simp add: three_in_flight_eval two_in_flight_eval unlimited_manager_def
        new_ConcurrencyManager_def activeCount_def fcard_finsert_if)

text \<open>
  What \<^verbatim>\<open>finishRequest\<close> does to the map: nothing for a voice without a record; else it
  removes the request id and drops the record exactly when no id is left. On the map a
  second call changes nothing.
\<close>

lemma finishRequest_unknown_voice:
  "activeRequests cm voiceId = None \<Longrightarrow> finishRequest cm voiceId requestId = cm"
  by (simp add: finishRequest_def)

lemma finishRequest_record:
  assumes "activeRequests cm voiceId = Some requests"
  shows "activeRequests (finishRequest cm voiceId requestId) voiceId =
           (if requests |-| {|requestId|} = {||} then None else Some (requests |-| {|requestId|}))"
  using assms by (simp add: finishRequest_def Let_def)

lemma finishRequest_map_idempotent:
  "activeRequests (finishRequest (finishRequest cm voiceId requestId) voiceId requestId) =
   activeRequests (finishRequest cm voiceId requestId)"
  by (auto simp: finishRequest_def Let_def split: option.splits)

text \<open>
  C8 does not hold of the code: \<^verbatim>\<open>stats.activeRequests\<close> is decremented on every call
  for a voice that has a record, whether or not the request id was in it. With three
  requests of one voice in flight, finishing \<open>req_2\<close> twice counts 3, 2, 1 while two
  requests remain; finishing \<open>req_9\<close>, which was never started, counts 2 while three
  remain.
\<close>

theorem finishRequest_twice_differs:
  "activeRequests_cm (stats_cm (finishRequest three_in_flight ''voiceA'' ''req_2'')) = 2
   \<and> activeRequests_cm (stats_cm
        (finishRequest (finishRequest three_in_flight ''voiceA'' ''req_2'') ''voiceA'' ''req_2'')) = 1
   \<and> activeRequests (finishRequest (finishRequest three_in_flight ''voiceA'' ''req_2'') ''voiceA'' ''req_2'')
       ''voiceA'' = Some {|''req_3'', ''req_1''|}
   \<and> activeRequests_cm (stats_cm (finishRequest three_in_flight ''voiceA'' ''req_9'')) = 2
   \<and> activeRequests (finishRequest three_in_flight ''voiceA'' ''req_9'') ''voiceA''
       = Some {|''req_3'', ''req_2'', ''req_1''|}"
  by (simp add: three_in_flight_eval finishRequest_def Let_def finsert_fminus_if)

section \<open>Properties of the session store\<close>

lemma length_BROWSER_PROFILES: "length BROWSER_PROFILES = 5"
  by (simp add: BROWSER_PROFILES_def)

lemma randomIndex_bound:
  assumes "0 \<le> u" and "u < 1"
  shows "randomIndex u < length BROWSER_PROFILES"
proof -
  have "0 \<le> u * 5" using assms by simp
  moreover have "u * 5 < 5" using assms by simp
  ultimately have "0 \<le> \<lfloor>u * 5\<rfloor> \<and> \<lfloor>u * 5\<rfloor> < 5"
    by (simp add: floor_less_iff)
  then have "nat \<lfloor>u * 5\<rfloor> < 5" by linarith
  then show ?thesis
    by (simp add: randomIndex_def length_BROWSER_PROFILES)
qed

lemma randomIndex_interval:
  assumes "0 \<le> u"
  shows "(randomIndex u = k) = (real k / 5 \<le> u \<and> u < (real k + 1) / 5)"
proof -
  have nn: "0 \<le> \<lfloor>u * 5\<rfloor>" using assms by simp
  have "(randomIndex u = k) = (\<lfloor>u * 5\<rfloor> = int k)"
    using nn by (auto simp: randomIndex_def length_BROWSER_PROFILES)
  also have "\<dots> = (real k \<le> u * 5 \<and> u * 5 < real k + 1)"
    by (auto simp: floor_eq_iff)
  also have "\<dots> = (real k / 5 \<le> u \<and> u < (real k + 1) / 5)"
    by (simp add: field_simps)
  finally show ?thesis .
qed

lemma lookup_live:
  assumes "activeSessions sessionId = Some s" and "now - startTime s < sessionDuration"
  shows "getBrowserProfileForSession activeSessions now u sessionId = (profile s, activeSessions)"
  using assms by (simp add: getBrowserProfileForSession_def)

lemma lookup_new:
  assumes "activeSessions sessionId = None \<or>
           (\<exists>s. activeSessions sessionId = Some s \<and> now - startTime s \<ge> sessionDuration)"
  shows "getBrowserProfileForSession activeSessions now u sessionId =
           (BROWSER_PROFILES ! randomIndex u,
            activeSessions(sessionId \<mapsto>
              \<lparr> profile = BROWSER_PROFILES ! randomIndex u, startTime = now, requestCount_s = 0 \<rparr>))"
  using assms by (auto simp: getBrowserProfileForSession_def Let_def)

lemma lookup_other:
  assumes "other \<noteq> sessionId"
  shows "snd (getBrowserProfileForSession activeSessions now u other) sessionId = activeSessions sessionId"
  using assms by (auto simp: getBrowserProfileForSession_def Let_def split: option.splits)

lemma lookups_stable:
  assumes "activeSessions sessionId = Some s"
    and "\<forall>op \<in> set ops. fst op = sessionId \<longrightarrow> fst (snd op) - startTime s < sessionDuration"
  shows "snd (lookups activeSessions ops) sessionId = Some s
       \<and> (\<forall>i < length ops. fst (ops ! i) = sessionId \<longrightarrow>
             fst (lookups activeSessions ops) ! i = profile s)"
  using assms
proof (induction ops arbitrary: activeSessions)
  case Nil
  then show ?case by simp
next
  case (Cons op ops)
  obtain k now u where op: "op = (k, now, u)" by (cases op) auto
  obtain p sessions1 where g: "getBrowserProfileForSession activeSessions now u k = (p, sessions1)"
    by (cases "getBrowserProfileForSession activeSessions now u k") auto
  obtain ps sessions2 where l: "lookups sessions1 ops = (ps, sessions2)"
    by (cases "lookups sessions1 ops") auto
  have keep: "sessions1 sessionId = Some s"
  proof (cases "k = sessionId")
    case True
    then have "now - startTime s < sessionDuration" using Cons.prems(2) op by simp
    then show ?thesis
      using lookup_live [of activeSessions sessionId s now u] Cons.prems(1) g True by simp
  next
    case False
    then show ?thesis using lookup_other [of k sessionId activeSessions now u] g Cons.prems(1) by simp
  qed
  have hd: "k = sessionId \<Longrightarrow> p = profile s"
  proof -
    assume e: "k = sessionId"
    then have "now - startTime s < sessionDuration" using Cons.prems(2) op by simp
    then show ?thesis
      using lookup_live [of activeSessions sessionId s now u] Cons.prems(1) g e by simp
  qed
  have rest: "\<forall>op \<in> set ops. fst op = sessionId \<longrightarrow> fst (snd op) - startTime s < sessionDuration"
    using Cons.prems(2) by simp
  have ih: "snd (lookups sessions1 ops) sessionId = Some s
       \<and> (\<forall>i < length ops. fst (ops ! i) = sessionId \<longrightarrow> fst (lookups sessions1 ops) ! i = profile s)"
    using Cons.IH [of sessions1] keep rest by blast
  show ?case
  proof (intro conjI allI impI)
    show "snd (lookups activeSessions (op # ops)) sessionId = Some s"
      using ih op g l by simp
  next
    fix i assume i: "i < length (op # ops)" and ki: "fst ((op # ops) ! i) = sessionId"
    show "fst (lookups activeSessions (op # ops)) ! i = profile s"
    proof (cases i)
      case 0
      then show ?thesis using ki op g l hd by simp
    next
      case (Suc j)
      then show ?thesis using i ki ih op g l by simp
    qed
  qed
qed

text \<open>
  C9. A lookup that finds a session younger than \<open>sessionDuration\<close> returns that
  session's profile and leaves the map as it is, so every lookup of the key within
  \<open>sessionDuration\<close> of the session's creation returns the same profile, whatever other
  lookups come in between. A lookup that finds no session, or one with
  \<open>now - startTime \<ge> sessionDuration\<close>, replaces it by a new session made at \<open>now\<close> with
  the profile \<open>BROWSER_PROFILES ! \<lfloor>u * 5\<rfloor>\<close> for the draw \<open>u\<close> in \<open>[0, 1)\<close>, and returns
  that profile: a member of the pool, each of the five chosen on a draw interval of
  length 1/5.
\<close>

theorem session_lookup:
  "(activeSessions sessionId = Some s \<and> now - startTime s < sessionDuration \<longrightarrow>
      getBrowserProfileForSession activeSessions now u sessionId = (profile s, activeSessions))
   \<and> (activeSessions sessionId = Some s
        \<and> (\<forall>op \<in> set ops. fst op = sessionId \<longrightarrow> fst (snd op) - startTime s < sessionDuration) \<longrightarrow>
      (\<forall>i < length ops. fst (ops ! i) = sessionId \<longrightarrow> fst (lookups activeSessions ops) ! i = profile s))
   \<and> ((activeSessions sessionId = None \<or>
        (\<exists>old. activeSessions sessionId = Some old \<and> now - startTime old \<ge> sessionDuration))
       \<and> 0 \<le> u \<and> u < 1 \<longrightarrow>
      getBrowserProfileForSession activeSessions now u sessionId =
        (BROWSER_PROFILES ! randomIndex u,
         activeSessions(sessionId \<mapsto>
           \<lparr> profile = BROWSER_PROFILES ! randomIndex u, startTime = now, requestCount_s = 0 \<rparr>))
      \<and> BROWSER_PROFILES ! randomIndex u \<in> set BROWSER_PROFILES
      \<and> (\<forall>k < length BROWSER_PROFILES.
            (randomIndex u = k) = (real k / 5 \<le> u \<and> u < (real k + 1) / 5)))"
proof (intro conjI impI)
  assume "activeSessions sessionId = Some s \<and> now - startTime s < sessionDuration"
  then show "getBrowserProfileForSession activeSessions now u sessionId = (profile s, activeSessions)"
    using lookup_live by blast
next
  assume "activeSessions sessionId = Some s
        \<and> (\<forall>op \<in> set ops. fst op = sessionId \<longrightarrow> fst (snd op) - startTime s < sessionDuration)"
  then show "\<forall>i < length ops. fst (ops ! i) = sessionId \<longrightarrow> fst (lookups activeSessions ops) ! i = profile s"
    using lookups_stable by blast
next
  assume a: "(activeSessions sessionId = None \<or>
        (\<exists>old. activeSessions sessionId = Some old \<and> now - startTime old \<ge> sessionDuration))
       \<and> 0 \<le> u \<and> u < 1"
  then show "getBrowserProfileForSession activeSessions now u sessionId =
        (BROWSER_PROFILES ! randomIndex u,
         activeSessions(sessionId \<mapsto>
           \<lparr> profile = BROWSER_PROFILES ! randomIndex u, startTime = now, requestCount_s = 0 \<rparr>))"
    using lookup_new by blast
  show "BROWSER_PROFILES ! randomIndex u \<in> set BROWSER_PROFILES"
    using a randomIndex_bound by simp
  show "\<forall>k < length BROWSER_PROFILES.
            (randomIndex u = k) = (real k / 5 \<le> u \<and> u < (real k + 1) / 5)"
    using a randomIndex_interval by blast
qed

lemma randomIndex_half: "randomIndex (1/2) = 2"
  by (simp add: randomIndex_def length_BROWSER_PROFILES)

lemma randomIndex_nine_tenths: "randomIndex (9/10) = 4"
  by (simp add: randomIndex_def length_BROWSER_PROFILES)

lemma first_session_eval:
  "first_session = [''voiceA_0a1b2c3d'' \<mapsto>
      \<lparr> profile = BROWSER_PROFILES ! 2, startTime = 1000, requestCount_s = 0 \<rparr>]"
  by (simp add: first_session_def getBrowserProfileForSession_def randomIndex_half Let_def)

lemma profile_ids:
  "profile_id (BROWSER_PROFILES ! 2) = ''firefox_126_windows''"
  "profile_id (BROWSER_PROFILES ! 4) = ''edge_125_windows''"
  by (simp_all add: BROWSER_PROFILES_def)

text \<open>
  The session made at time 1000 holds the third profile. Lookups at 2000, 200000 and
  300999 return it; the lookup at 301000 replaces it by the fifth.
\<close>

theorem session_lookup_witness:
  "profile_id (fst (getBrowserProfileForSession first_session 200000 (9/10) ''voiceA_0a1b2c3d''))
     = ''firefox_126_windows''
   \<and> snd (getBrowserProfileForSession first_session 200000 (9/10) ''voiceA_0a1b2c3d'') = first_session
   \<and> map profile_id (fst (lookups first_session
        [(''voiceA_0a1b2c3d'', 2000, 9/10), (''voiceB_11111111'', 3000, 9/10),
         (''voiceA_0a1b2c3d'', 300999, 0)]))
       = [''firefox_126_windows'', ''edge_125_windows'', ''firefox_126_windows'']
   \<and> profile_id (fst (getBrowserProfileForSession first_session 301000 (9/10) ''voiceA_0a1b2c3d''))
     = ''edge_125_windows''
   \<and> snd (getBrowserProfileForSession first_session 301000 (9/10) ''voiceA_0a1b2c3d'') ''voiceA_0a1b2c3d''
     = Some \<lparr> profile = BROWSER_PROFILES ! 4, startTime = 301000, requestCount_s = 0 \<rparr>
   \<and> randomIndex (9/10) = 4"
  using session_lookup [where activeSessions = first_session and sessionId = "''voiceA_0a1b2c3d''"
          and s = "\<lparr> profile = BROWSER_PROFILES ! 2, startTime = 1000, requestCount_s = 0 \<rparr>"
          and now = 200000 and u = "9/10" and ops = "[]"]
        session_lookup [where activeSessions = first_session and sessionId = "''voiceA_0a1b2c3d''"
          and s = "\<lparr> profile = BROWSER_PROFILES ! 2, startTime = 1000, requestCount_s = 0 \<rparr>"
          and now = 301000 and u = "9/10" and ops = "[]"]
  by (simp add: first_session_eval sessionDuration_def profile_ids randomIndex_nine_tenths
        getBrowserProfileForSession_def Let_def)

section \<open>Properties of the retry orchestrator\<close>

lemma show_nat_429: "show_nat 429 = ''429''"
  by (simp add: show_nat.simps digit_def)

lemma show_nat_500: "show_nat 500 = ''500''"
  by (simp add: show_nat.simps digit_def)

lemmas retry_defs = callElevenLabsAPI_def retry_loop.simps attemptElevenLabsAPICall_def
  all_attempts_failed_def isRetryableError_def actualMaxRetries_def getMaxRetriesForHttpError_def
  startsWith_def ok_def generateSessionId_def getBrowserProfileForSession_def Let_def

text \<open>
  With rotation enabled, an upstream that always answers 429 is tried twice, one that
  always answers 500 once, one that always refuses the connection three times.
\<close>

lemma rate_limited_two_attempts:
  "length (sent (snd (callElevenLabsAPI constant_digest True 1000 (1/2) ''voiceA'' ''{}'' 180000
       rate_limited_world))) = 2"
  by (simp add: retry_defs rate_limited_world_def rate_limited_def show_nat_429)

lemma server_error_one_attempt:
  "length (sent (snd (callElevenLabsAPI constant_digest True 1000 (1/2) ''voiceA'' ''{}'' 180000
       server_error_world))) = 1"
  by (simp add: retry_defs server_error_world_def server_error_def show_nat_500)

lemma unreachable_three_attempts:
  "length (sent (snd (callElevenLabsAPI constant_digest True 1000 (1/2) ''voiceA'' ''{}'' 180000
       unreachable_world))) = 3"
  by (simp add: retry_defs unreachable_world_def)

text \<open>
  One attempt sends one request with the headers of the profile it was given, and
  changes at most the request count of a session.
\<close>

lemma attempt_effect:
  assumes "attemptElevenLabsAPICall w voiceId requestBody timeout sessionId browserProfile = (ans, w')"
  shows "sent w' = sent w @ [fetch_request_for voiceId requestBody timeout browserProfile]
       \<and> upstream w' = upstream w
       \<and> same_identities (sessions w) (sessions w')"
  using assms
  by (auto simp: attemptElevenLabsAPICall_def fetch_request_for_def same_identities_def Let_def
        split: sum.splits option.splits if_splits)

lemma same_identities_refl: "same_identities m m"
  by (simp add: same_identities_def)

lemma same_identities_trans:
  "same_identities m1 m2 \<Longrightarrow> same_identities m2 m3 \<Longrightarrow> same_identities m1 m3"
  by (simp add: same_identities_def)

text \<open>
  The loop sends between one and \<open>maxRetries - retryCount\<close> such requests (none if
  \<open>retryCount\<close> has reached \<open>maxRetries\<close>).
\<close>

lemma retry_loop_effect:
  "retry_loop en maxRetries voiceId requestBody timeout sessionId browserProfile retryCount lastError w
     = (ans, w') \<Longrightarrow>
   (\<exists>n. sent w' = sent w @ replicate n (fetch_request_for voiceId requestBody timeout browserProfile)
         \<and> n \<le> nat (maxRetries - int retryCount)
         \<and> (int retryCount < maxRetries \<longrightarrow> 1 \<le> n))
   \<and> same_identities (sessions w) (sessions w')"
proof (induction en maxRetries voiceId requestBody timeout sessionId browserProfile retryCount lastError w
        arbitrary: ans w' rule: retry_loop.induct)
  case (1 en maxRetries voiceId requestBody timeout sessionId browserProfile retryCount lastError w)
  let ?req = "fetch_request_for voiceId requestBody timeout browserProfile"
  show ?case
  proof (cases "int retryCount < maxRetries")
    case False
    then have "w' = w" using "1.prems" by (simp add: retry_loop.simps)
    then show ?thesis using False by (simp add: same_identities_refl)
  next
    case True
    obtain a w1 where att:
      "attemptElevenLabsAPICall w voiceId requestBody timeout sessionId browserProfile = (a, w1)"
      by (cases "attemptElevenLabsAPICall w voiceId requestBody timeout sessionId browserProfile") auto
    have eff: "sent w1 = sent w @ [?req]" "same_identities (sessions w) (sessions w1)"
      using attempt_effect [OF att] by simp_all
    have one: "sent w1 = sent w @ replicate 1 ?req" using eff(1) by simp
    show ?thesis
    proof (cases a)
      case (Inr result)
      then have "w' = w1" using "1.prems" True att by (simp add: retry_loop.simps)
      then show ?thesis using one eff(2) True by (intro conjI exI [of _ 1]) auto
    next
      case (Inl error)
      show ?thesis
      proof (cases "\<not> en \<or> \<not> isRetryableError error \<or> int retryCount = actualMaxRetries maxRetries error - 1")
        case stop: True
        then have "w' = w1" using "1.prems" True att Inl by (simp add: retry_loop.simps)
        then show ?thesis using one eff(2) True by (intro conjI exI [of _ 1]) auto
      next
        case go: False
        then have rec: "retry_loop en maxRetries voiceId requestBody timeout sessionId browserProfile
               (retryCount + 1) (Some error) w1 = (ans, w')"
          using "1.prems" True att Inl by (simp add: retry_loop.simps)
        have ih: "(\<exists>n. sent w' = sent w1 @ replicate n ?req
             \<and> n \<le> nat (maxRetries - int (retryCount + 1))
             \<and> (int (retryCount + 1) < maxRetries \<longrightarrow> 1 \<le> n))
           \<and> same_identities (sessions w1) (sessions w')"
          using "1.IH" [OF True att [symmetric] Inl go rec] .
        then obtain n where n: "sent w' = sent w1 @ replicate n ?req"
            "n \<le> nat (maxRetries - int (retryCount + 1))"
          by blast
        have "sent w' = sent w @ replicate (Suc n) ?req"
          using n(1) eff(1) by (simp add: replicate_app_Cons_same)
        moreover have "Suc n \<le> nat (maxRetries - int retryCount)"
          using n(2) True by linarith
        moreover have "same_identities (sessions w) (sessions w')"
          using ih eff(2) same_identities_trans by blast
        ultimately show ?thesis by (intro conjI exI [of _ "Suc n"]) auto
      qed
    qed
  qed
qed

lemma lookup_stores_profile:
  "\<exists>s. snd (getBrowserProfileForSession activeSessions now u sessionId) sessionId = Some s
       \<and> profile s = fst (getBrowserProfileForSession activeSessions now u sessionId)"
  by (auto simp: getBrowserProfileForSession_def Let_def split: option.splits)

lemma all_attempts_failed_sessions:
  "sessions (snd (all_attempts_failed lastError sessionId w)) = sessions w
   \<or> sessions (snd (all_attempts_failed lastError sessionId w)) = (sessions w)(sessionId := None)"
  by (auto simp: all_attempts_failed_def split: option.splits)

lemma all_attempts_failed_sent:
  "sent (snd (all_attempts_failed lastError sessionId w)) = sent w"
  by (auto simp: all_attempts_failed_def split: option.splits)

lemma call_effect:
  assumes "callElevenLabsAPI md5 en now u voiceId requestBody timeout w = (ans, w')"
  shows "(\<exists>n. sent w' = sent w @ replicate n
             (fetch_request_for voiceId requestBody timeout
                (fst (getBrowserProfileForSession (sessions w) now u
                        (generateSessionId md5 voiceId requestBody))))
           \<and> 1 \<le> n \<and> n \<le> (if en then 3 else 1))
       \<and> (\<forall>s. sessions w' (generateSessionId md5 voiceId requestBody) = Some s \<longrightarrow>
             profile s = fst (getBrowserProfileForSession (sessions w) now u
                               (generateSessionId md5 voiceId requestBody)))"
proof -
  let ?sid = "generateSessionId md5 voiceId requestBody"
  let ?g = "getBrowserProfileForSession (sessions w) now u ?sid"
  let ?w1 = "w\<lparr> sessions := snd ?g \<rparr>"
  let ?mr = "if en then 3 else 1 :: int"
  obtain l w2 where loop:
    "retry_loop en ?mr voiceId requestBody timeout ?sid (fst ?g) 0 None ?w1 = (l, w2)"
    by (cases "retry_loop en ?mr voiceId requestBody timeout ?sid (fst ?g) 0 None ?w1") auto
  have pos: "int 0 < ?mr" by simp
  from retry_loop_effect [OF loop] pos
  obtain n where n: "sent w2 = sent ?w1 @ replicate n (fetch_request_for voiceId requestBody timeout (fst ?g))"
      "n \<le> nat (?mr - int 0)" "1 \<le> n"
    and ids: "same_identities (sessions ?w1) (sessions w2)"
    by blast
  obtain s1 where s1: "snd ?g ?sid = Some s1" "profile s1 = fst ?g"
    using lookup_stores_profile by blast
  have p2: "\<forall>s. sessions w2 ?sid = Some s \<longrightarrow> profile s = fst ?g"
  proof (intro allI impI)
    fix s assume "sessions w2 ?sid = Some s"
    moreover have "map_option profile (sessions w2 ?sid) = map_option profile (snd ?g ?sid)"
      using ids by (simp add: same_identities_def)
    ultimately show "profile s = fst ?g" using s1 by simp
  qed
  have w': "sent w' = sent w2 \<and> (sessions w' = sessions w2 \<or> sessions w' = (sessions w2)(?sid := None))"
  proof (cases l)
    case (Inr result)
    then have "w' = w2" using assms loop
      by (simp add: callElevenLabsAPI_def Let_def split: prod.splits)
    then show ?thesis by simp
  next
    case (Inl lastError)
    then have "w' = snd (all_attempts_failed lastError ?sid w2)" using assms loop
      by (auto simp: callElevenLabsAPI_def Let_def split: prod.splits)
    then show ?thesis
      using all_attempts_failed_sent [of lastError ?sid w2]
            all_attempts_failed_sessions [of lastError ?sid w2] by simp
  qed
  have bound: "n \<le> (if en then 3 else 1)" using n(2) by (simp split: if_splits)
  have "sent w' = sent w @ replicate n (fetch_request_for voiceId requestBody timeout (fst ?g))"
    using w' n(1) by simp
  moreover have "\<forall>s. sessions w' ?sid = Some s \<longrightarrow> profile s = fst ?g"
    using w' p2 by (auto split: if_splits)
  ultimately show ?thesis using n(3) bound by blast
qed

text \<open>With rotation disabled exactly one attempt is made, whatever the upstream answers.\<close>

lemma call_disabled_one_attempt:
  "length (sent (snd (callElevenLabsAPI md5 False now u voiceId requestBody timeout w)))
     = length (sent w) + 1"
proof -
  obtain ans w' where c: "callElevenLabsAPI md5 False now u voiceId requestBody timeout w = (ans, w')"
    by (cases "callElevenLabsAPI md5 False now u voiceId requestBody timeout w") auto
  from call_effect [OF c] obtain n where "sent w' = sent w @ replicate n
             (fetch_request_for voiceId requestBody timeout
                (fst (getBrowserProfileForSession (sessions w) now u
                        (generateSessionId md5 voiceId requestBody))))" "1 \<le> n" "n \<le> 1"
    by auto
  then show ?thesis using c by simp
qed

lemma call_at_most_three:
  "length (sent w) + 1 \<le> length (sent (snd (callElevenLabsAPI md5 en now u voiceId requestBody timeout w)))
   \<and> length (sent (snd (callElevenLabsAPI md5 en now u voiceId requestBody timeout w)))
       \<le> length (sent w) + (if en then 3 else 1)"
proof -
  obtain ans w' where c: "callElevenLabsAPI md5 en now u voiceId requestBody timeout w = (ans, w')"
    by (cases "callElevenLabsAPI md5 en now u voiceId requestBody timeout w") auto
  from call_effect [OF c] obtain n where "sent w' = sent w @ replicate n
             (fetch_request_for voiceId requestBody timeout
                (fst (getBrowserProfileForSession (sessions w) now u
                        (generateSessionId md5 voiceId requestBody))))" "1 \<le> n" "n \<le> (if en then 3 else 1)"
    by auto
  then show ?thesis using c by (auto split: if_splits)
qed

text \<open>
  The loop never ends with \<^verbatim>\<open>lastError\<close> still \<^verbatim>\<open>null\<close> once its body has run, and the
  session looked up at the start of a call is still there at its end, with the same
  profile and start time, unless the last error is one that removes it.
\<close>

lemma retry_loop_last_error:
  "retry_loop en maxRetries voiceId requestBody timeout sessionId browserProfile retryCount lastError w
     = (Inl l, w') \<Longrightarrow> int retryCount < maxRetries \<or> lastError \<noteq> None \<Longrightarrow> l \<noteq> None"
proof (induction en maxRetries voiceId requestBody timeout sessionId browserProfile retryCount lastError w
        arbitrary: l w' rule: retry_loop.induct)
  case (1 en maxRetries voiceId requestBody timeout sessionId browserProfile retryCount lastError w)
  show ?case
  proof (cases "int retryCount < maxRetries")
    case False
    then show ?thesis using "1.prems" by (simp add: retry_loop.simps)
  next
    case True
    obtain a w1 where att:
      "attemptElevenLabsAPICall w voiceId requestBody timeout sessionId browserProfile = (a, w1)"
      by (cases "attemptElevenLabsAPICall w voiceId requestBody timeout sessionId browserProfile") auto
    show ?thesis
    proof (cases a)
      case (Inr result)
      then show ?thesis using "1.prems"(1) True att by (simp add: retry_loop.simps)
    next
      case (Inl error)
      show ?thesis
      proof (cases "\<not> en \<or> \<not> isRetryableError error \<or> int retryCount = actualMaxRetries maxRetries error - 1")
        case stop: True
        then show ?thesis using "1.prems"(1) True att Inl by (auto simp: retry_loop.simps)
      next
        case go: False
        then have rec: "retry_loop en maxRetries voiceId requestBody timeout sessionId browserProfile
               (retryCount + 1) (Some error) w1 = (Inl l, w')"
          using "1.prems"(1) True att Inl by (simp add: retry_loop.simps)
        show ?thesis
          using "1.IH" [OF True att [symmetric] Inl go rec] by simp
      qed
    qed
  qed
qed

lemma all_attempts_failed_some:
  "all_attempts_failed (Some message) sessionId w =
     (message, if clears_session message then w\<lparr> sessions := (sessions w)(sessionId := None) \<rparr> else w)"
  by (auto simp: all_attempts_failed_def clears_session_def)

lemma call_sessions:
  assumes c: "callElevenLabsAPI md5 en now u voiceId requestBody timeout w = (a, w')"
    and stored: "snd (getBrowserProfileForSession (sessions w) now u
                        (generateSessionId md5 voiceId requestBody))
                   (generateSessionId md5 voiceId requestBody) = Some s1"
  shows "(session_kept a \<longrightarrow>
            (\<exists>s. sessions w' (generateSessionId md5 voiceId requestBody) = Some s
                 \<and> profile s = profile s1 \<and> startTime s = startTime s1))
       \<and> (\<not> session_kept a \<longrightarrow> sessions w' (generateSessionId md5 voiceId requestBody) = None)"
proof -
  let ?sid = "generateSessionId md5 voiceId requestBody"
  let ?g = "getBrowserProfileForSession (sessions w) now u ?sid"
  let ?w1 = "w\<lparr> sessions := snd ?g \<rparr>"
  let ?mr = "if en then 3 else 1 :: int"
  obtain l w2 where loop:
    "retry_loop en ?mr voiceId requestBody timeout ?sid (fst ?g) 0 None ?w1 = (l, w2)"
    by (cases "retry_loop en ?mr voiceId requestBody timeout ?sid (fst ?g) 0 None ?w1") auto
  have ids: "same_identities (sessions ?w1) (sessions w2)"
    using retry_loop_effect [OF loop] by blast
  have "map_option profile (sessions w2 ?sid) = map_option profile (snd ?g ?sid)"
       "map_option startTime (sessions w2 ?sid) = map_option startTime (snd ?g ?sid)"
    using ids by (simp_all add: same_identities_def)
  then obtain s2 where s2: "sessions w2 ?sid = Some s2" "profile s2 = profile s1"
      "startTime s2 = startTime s1"
    using stored by auto
  show ?thesis
  proof (cases l)
    case (Inr result)
    then have "a = Inr result" "w' = w2" using c loop
      by (simp_all add: callElevenLabsAPI_def Let_def split: prod.splits)
    then show ?thesis using s2 by (simp add: session_kept_def)
  next
    case (Inl lastError)
    have pos: "int 0 < ?mr" by simp
    have "lastError \<noteq> None"
      using retry_loop_last_error [of en ?mr voiceId requestBody timeout ?sid "fst ?g" 0 None ?w1
          lastError w2] loop Inl pos
      by blast
    then obtain message where m: "lastError = Some message" by auto
    have "a = Inl message"
        "w' = (if clears_session message then w2\<lparr> sessions := (sessions w2)(?sid := None) \<rparr> else w2)"
      using c loop Inl m
      by (auto simp: callElevenLabsAPI_def Let_def all_attempts_failed_some split: prod.splits)
    then show ?thesis using s2 by (simp add: session_kept_def)
  qed
qed

text \<open>
  C10, as the code has it. Two request bodies with the same first 100 characters give
  the same session id for a voice: the voice id, an underscore, and the first 8
  characters of the digest of those 100 characters. The first call leaves a session
  under that id with the profile it used. If the first call returns a response, or
  throws an error that does not remove the session, and the second call comes within
  \<open>sessionDuration\<close> of that session's start, every request of both calls carries the
  headers of that profile. If the first call throws an error that removes the session
  (one that mentions 429), the session is gone and the second call sends the headers
  of a newly drawn profile.
\<close>

theorem session_key_reuse:
  assumes "take 100 body1 = take 100 body2"
  shows "generateSessionId md5 voiceId body1 = generateSessionId md5 voiceId body2
       \<and> generateSessionId md5 voiceId body1 = voiceId @ ''_'' @ take 8 (md5 (take 100 body1))
       \<and> (\<exists>s1. snd (getBrowserProfileForSession (sessions w) now u (generateSessionId md5 voiceId body1))
                   (generateSessionId md5 voiceId body1) = Some s1
              \<and> profile s1 = fst (getBrowserProfileForSession (sessions w) now u
                                    (generateSessionId md5 voiceId body1)))
       \<and> (\<forall>s1. snd (getBrowserProfileForSession (sessions w) now u (generateSessionId md5 voiceId body1))
                   (generateSessionId md5 voiceId body1) = Some s1
              \<and> session_kept (fst (callElevenLabsAPI md5 en now u voiceId body1 timeout w))
              \<and> next_now - startTime s1 < sessionDuration \<longrightarrow>
            (\<forall>r \<in> set (drop (length (sent w))
                          (sent (snd (callElevenLabsAPI md5 en now u voiceId body1 timeout w)))).
                request_headers r = (''Content-Type'', ''application/json'') # headers (profile s1))
          \<and> (\<forall>r \<in> set (drop (length (sent (snd (callElevenLabsAPI md5 en now u voiceId body1 timeout w))))
                          (sent (snd (callElevenLabsAPI md5 next_en next_now next_u voiceId body2 next_timeout
                                   (snd (callElevenLabsAPI md5 en now u voiceId body1 timeout w)))))).
                request_headers r = (''Content-Type'', ''application/json'') # headers (profile s1)))
       \<and> (\<not> session_kept (fst (callElevenLabsAPI md5 en now u voiceId body1 timeout w)) \<longrightarrow>
            sessions (snd (callElevenLabsAPI md5 en now u voiceId body1 timeout w))
              (generateSessionId md5 voiceId body1) = None
          \<and> (\<forall>r \<in> set (drop (length (sent (snd (callElevenLabsAPI md5 en now u voiceId body1 timeout w))))
                          (sent (snd (callElevenLabsAPI md5 next_en next_now next_u voiceId body2 next_timeout
                                   (snd (callElevenLabsAPI md5 en now u voiceId body1 timeout w)))))).
                request_headers r = (''Content-Type'', ''application/json'')
                                      # headers (BROWSER_PROFILES ! randomIndex next_u)))"
proof -
  let ?sid = "generateSessionId md5 voiceId body1"
  let ?g = "getBrowserProfileForSession (sessions w) now u ?sid"
  let ?c1 = "callElevenLabsAPI md5 en now u voiceId body1 timeout w"
  let ?c2 = "callElevenLabsAPI md5 next_en next_now next_u voiceId body2 next_timeout (snd ?c1)"
  obtain a1 w1 where c1: "?c1 = (a1, w1)" by (cases ?c1) auto
  obtain a2 w2 where c2: "callElevenLabsAPI md5 next_en next_now next_u voiceId body2 next_timeout w1 = (a2, w2)"
    by (cases "callElevenLabsAPI md5 next_en next_now next_u voiceId body2 next_timeout w1") auto
  have key: "generateSessionId md5 voiceId body1 = generateSessionId md5 voiceId body2"
    using assms by (simp add: generateSessionId_def)
  have form: "?sid = voiceId @ ''_'' @ take 8 (md5 (take 100 body1))"
    by (simp add: generateSessionId_def)
  have made: "\<exists>s1. snd ?g ?sid = Some s1 \<and> profile s1 = fst ?g"
    using lookup_stores_profile by blast
  from call_effect [OF c1] obtain n where
    n: "sent w1 = sent w @ replicate n (fetch_request_for voiceId body1 timeout (fst ?g))"
    by auto
  from call_effect [OF c2] obtain k where
    k: "sent w2 = sent w1 @ replicate k (fetch_request_for voiceId body2 next_timeout
           (fst (getBrowserProfileForSession (sessions w1) next_now next_u ?sid)))"
    using key by auto
  have kept: "(\<forall>r \<in> set (drop (length (sent w)) (sent (snd ?c1))).
                request_headers r = (''Content-Type'', ''application/json'') # headers (profile s1))
          \<and> (\<forall>r \<in> set (drop (length (sent (snd ?c1))) (sent (snd ?c2))).
                request_headers r = (''Content-Type'', ''application/json'') # headers (profile s1))"
    if st: "snd ?g ?sid = Some s1" and ke: "session_kept (fst ?c1)"
      and young: "next_now - startTime s1 < sessionDuration" for s1
  proof -
    have p1: "profile s1 = fst ?g" using made st by auto
    obtain s where s: "sessions w1 ?sid = Some s" "profile s = profile s1" "startTime s = startTime s1"
      using call_sessions [OF c1 st] ke c1 by auto
    have second: "fst (getBrowserProfileForSession (sessions w1) next_now next_u ?sid) = profile s1"
      using s young by (simp add: getBrowserProfileForSession_def)
    show ?thesis
      using n k p1 second c1 c2 by (auto simp: fetch_request_for_def)
  qed
  have cleared: "sessions (snd ?c1) ?sid = None
          \<and> (\<forall>r \<in> set (drop (length (sent (snd ?c1))) (sent (snd ?c2))).
                request_headers r = (''Content-Type'', ''application/json'')
                                      # headers (BROWSER_PROFILES ! randomIndex next_u))"
    if nk: "\<not> session_kept (fst ?c1)"
  proof -
    obtain s1 where st: "snd ?g ?sid = Some s1" using made by blast
    have gone: "sessions w1 ?sid = None"
      using call_sessions [OF c1 st] nk c1 by auto
    have second: "fst (getBrowserProfileForSession (sessions w1) next_now next_u ?sid)
        = BROWSER_PROFILES ! randomIndex next_u"
      using gone by (simp add: getBrowserProfileForSession_def Let_def)
    show ?thesis
      using k gone second c1 c2 by (auto simp: fetch_request_for_def)
  qed
  show ?thesis using key form made kept cleared by blast
qed

lemma long_bodies: "take 100 long_body_x = take 100 long_body_y" "long_body_x \<noteq> long_body_y"
  by (simp_all add: long_body_x_def long_body_y_def)

lemma long_body_keys:
  "generateSessionId constant_digest ''voiceA'' long_body_x = ''voiceA_d41d8cd9''"
  "generateSessionId constant_digest ''voiceA'' long_body_y = ''voiceA_d41d8cd9''"
  by (simp_all add: generateSessionId_def constant_digest_def)

lemma healthy_first_call:
  "fst (callElevenLabsAPI constant_digest True 1000 (1/2) ''voiceA'' long_body_x 180000 healthy_world)
     = Inr audio_response
   \<and> sessions (snd (callElevenLabsAPI constant_digest True 1000 (1/2) ''voiceA'' long_body_x 180000
         healthy_world))
     = [''voiceA_d41d8cd9'' \<mapsto> \<lparr> profile = BROWSER_PROFILES ! 2, startTime = 1000, requestCount_s = 1 \<rparr>]
   \<and> length (sent (snd (callElevenLabsAPI constant_digest True 1000 (1/2) ''voiceA'' long_body_x 180000
          healthy_world))) = 1"
  by (simp add: retry_defs healthy_world_def audio_response_def constant_digest_def randomIndex_half)

lemma healthy_second_call:
  "map request_headers
        (sent (snd (callElevenLabsAPI constant_digest True 5000 (9/10) ''voiceA'' long_body_y 180000
           (snd (callElevenLabsAPI constant_digest True 1000 (1/2) ''voiceA'' long_body_x 180000
              healthy_world)))))
      = [ (''Content-Type'', ''application/json'') # headers (BROWSER_PROFILES ! 2),
          (''Content-Type'', ''application/json'') # headers (BROWSER_PROFILES ! 2) ]"
  by (simp add: retry_defs healthy_world_def audio_response_def constant_digest_def randomIndex_half
        sessionDuration_def)

lemma rate_limited_first_call:
  "fst (callElevenLabsAPI constant_digest True 1000 (1/2) ''voiceA'' long_body_x 180000
          rate_limited_then_ok_world) = Inl ''HTTP_ERROR_429: {}''
   \<and> sessions (snd (callElevenLabsAPI constant_digest True 1000 (1/2) ''voiceA'' long_body_x 180000
          rate_limited_then_ok_world)) ''voiceA_d41d8cd9'' = None
   \<and> length (sent (snd (callElevenLabsAPI constant_digest True 1000 (1/2) ''voiceA'' long_body_x 180000
          rate_limited_then_ok_world))) = 2"
  by (simp add: retry_defs rate_limited_then_ok_world_def rate_limited_def audio_response_def
        constant_digest_def randomIndex_half show_nat_429)

lemma rate_limited_second_call:
  "map request_headers
        (sent (snd (callElevenLabsAPI constant_digest True 5000 (9/10) ''voiceA'' long_body_y 180000
           (snd (callElevenLabsAPI constant_digest True 1000 (1/2) ''voiceA'' long_body_x 180000
              rate_limited_then_ok_world)))))
      = [ (''Content-Type'', ''application/json'') # headers (BROWSER_PROFILES ! 2),
          (''Content-Type'', ''application/json'') # headers (BROWSER_PROFILES ! 2),
          (''Content-Type'', ''application/json'') # headers (BROWSER_PROFILES ! 4) ]"
  by (simp add: retry_defs rate_limited_then_ok_world_def rate_limited_def audio_response_def
        constant_digest_def randomIndex_half randomIndex_nine_tenths show_nat_429 sessionDuration_def)

lemma profiles_differ: "headers (BROWSER_PROFILES ! 2) \<noteq> headers (BROWSER_PROFILES ! 4)"
  by (simp add: BROWSER_PROFILES_def)

lemma clears_429: "clears_session ''HTTP_ERROR_429: {}''"
  by (simp add: clears_session_def)

text \<open>
  C10 as stated fails: when the upstream answers 429 twice and then 200, the first
  call sends two requests with the third profile's headers and removes the session,
  and the second call, whose body has the same first 100 characters, sends its request
  with the fifth profile's headers.
\<close>

theorem session_key_reuse_counterexample:
  "take 100 long_body_x = take 100 long_body_y
   \<and> generateSessionId constant_digest ''voiceA'' long_body_x
       = generateSessionId constant_digest ''voiceA'' long_body_y
   \<and> map request_headers
        (sent (snd (callElevenLabsAPI constant_digest True 5000 (9/10) ''voiceA'' long_body_y 180000
           (snd (callElevenLabsAPI constant_digest True 1000 (1/2) ''voiceA'' long_body_x 180000
              rate_limited_then_ok_world)))))
      = [ (''Content-Type'', ''application/json'') # headers (BROWSER_PROFILES ! 2),
          (''Content-Type'', ''application/json'') # headers (BROWSER_PROFILES ! 2),
          (''Content-Type'', ''application/json'') # headers (BROWSER_PROFILES ! 4) ]
   \<and> headers (BROWSER_PROFILES ! 2) \<noteq> headers (BROWSER_PROFILES ! 4)"
  using long_bodies(1) long_body_keys rate_limited_second_call profiles_differ by simp

text \<open>
  With an upstream that answers 200 the second call reuses the third profile; after
  the two 429 answers the session is removed.
\<close>

theorem session_key_reuse_witness:
  "take 100 long_body_x = take 100 long_body_y \<and> long_body_x \<noteq> long_body_y
   \<and> generateSessionId constant_digest ''voiceA'' long_body_x = ''voiceA_d41d8cd9''
   \<and> generateSessionId constant_digest ''voiceA'' long_body_y = ''voiceA_d41d8cd9''
   \<and> session_kept (fst (callElevenLabsAPI constant_digest True 1000 (1/2) ''voiceA'' long_body_x 180000
         healthy_world))
   \<and> map request_headers
        (sent (snd (callElevenLabsAPI constant_digest True 5000 (9/10) ''voiceA'' long_body_y 180000
           (snd (callElevenLabsAPI constant_digest True 1000 (1/2) ''voiceA'' long_body_x 180000
              healthy_world)))))
      = [ (''Content-Type'', ''application/json'') # headers (BROWSER_PROFILES ! 2),
          (''Content-Type'', ''application/json'') # headers (BROWSER_PROFILES ! 2) ]
   \<and> \<not> session_kept (fst (callElevenLabsAPI constant_digest True 1000 (1/2) ''voiceA'' long_body_x 180000
         rate_limited_then_ok_world))
   \<and> sessions (snd (callElevenLabsAPI constant_digest True 1000 (1/2) ''voiceA'' long_body_x 180000
          rate_limited_then_ok_world)) ''voiceA_d41d8cd9'' = None"
  using session_key_reuse [where ?md5.0 = constant_digest and voiceId = "''voiceA''"
      and ?body1.0 = long_body_x and ?body2.0 = long_body_y and en = True and now = 1000 and u = "1/2"
      and timeout = 180000 and w = healthy_world
      and next_now = 5000 and next_en = True and next_u = "9/10" and next_timeout = 180000,
      OF long_bodies(1)]
    session_key_reuse [where ?md5.0 = constant_digest and voiceId = "''voiceA''"
      and ?body1.0 = long_body_x and ?body2.0 = long_body_y and en = True and now = 1000 and u = "1/2"
      and timeout = 180000 and w = rate_limited_then_ok_world
      and next_now = 5000 and next_en = True and next_u = "9/10" and next_timeout = 180000,
      OF long_bodies(1)]
    long_bodies long_body_keys healthy_first_call healthy_second_call rate_limited_first_call clears_429
  by (simp add: session_kept_def)

lemma execute_enter_counts:
  "totalRequests (stats (fst (execute_enter cb now))) = totalRequests (stats cb) + 1
   \<and> failures (fst (execute_enter cb now)) = failures cb
   \<and> totalFailures (stats (fst (execute_enter cb now))) = totalFailures (stats cb)
   \<and> totalSuccesses (stats (fst (execute_enter cb now))) = totalSuccesses (stats cb)"
  by (simp add: execute_enter_def changeState_def Let_def)

lemma execute_failure_counts:
  "totalRequests (stats (execute_failure cb now)) = totalRequests (stats cb)
   \<and> failures (execute_failure cb now) = failures cb + 1
   \<and> totalFailures (stats (execute_failure cb now)) = totalFailures (stats cb) + 1
   \<and> totalSuccesses (stats (execute_failure cb now)) = totalSuccesses (stats cb)"
  by (simp add: execute_failure_def changeState_def Let_def)

lemma execute_success_counts:
  "totalRequests (stats (execute_success cb now)) = totalRequests (stats cb)
   \<and> totalFailures (stats (execute_success cb now)) = totalFailures (stats cb)
   \<and> totalSuccesses (stats (execute_success cb now)) = totalSuccesses (stats cb) + 1"
  by (simp add: execute_success_def changeState_def Let_def)

lemma healthy_gate_passes: "isHealthy cb \<Longrightarrow> snd (execute_enter cb now) = None"
  by (auto simp: isHealthy_def execute_enter_def Let_def)

text \<open>
  C6, as the code has it. \<^verbatim>\<open>robustTtsHandler\<close> consults the breaker once per request,
  before the retry loop: a request that is admitted while the breaker is OPEN is
  answered with 503, and one that is not admitted with 429, in both cases without any
  upstream request and without touching the breaker. Otherwise the whole of
  \<^verbatim>\<open>callElevenLabsAPI\<close>, retry loop included, is handed to one call of \<^verbatim>\<open>execute\<close>: the
  loop runs once, sending between one and three requests (one with rotation disabled),
  and the breaker counts one request and one outcome: \<open>failures\<close> and \<open>totalFailures\<close> go
  up by one if the call as a whole fails, \<open>totalSuccesses\<close> by one if it succeeds,
  however many attempts were made.
\<close>

theorem handler_wraps_whole_call:
  "(fst (canProcessRequest cm voiceId) \<and> isHealthy cb \<longrightarrow>
       handler_answer (robustTtsHandler_steps cm cb md5 en now settled u voiceId requestId requestBody timeout w)
         = Called (fst (callElevenLabsAPI md5 en now u voiceId requestBody timeout w))
     \<and> handler_world (robustTtsHandler_steps cm cb md5 en now settled u voiceId requestId requestBody timeout w)
         = snd (callElevenLabsAPI md5 en now u voiceId requestBody timeout w)
     \<and> length (sent w) + 1
         \<le> length (sent (handler_world
               (robustTtsHandler_steps cm cb md5 en now settled u voiceId requestId requestBody timeout w)))
     \<and> length (sent (handler_world
               (robustTtsHandler_steps cm cb md5 en now settled u voiceId requestId requestBody timeout w)))
         \<le> length (sent w) + (if en then 3 else 1)
     \<and> totalRequests (stats (handler_breaker
               (robustTtsHandler_steps cm cb md5 en now settled u voiceId requestId requestBody timeout w)))
         = totalRequests (stats cb) + 1
     \<and> (isl (fst (callElevenLabsAPI md5 en now u voiceId requestBody timeout w)) \<longrightarrow>
           failures (handler_breaker
               (robustTtsHandler_steps cm cb md5 en now settled u voiceId requestId requestBody timeout w))
             = failures cb + 1
         \<and> totalFailures (stats (handler_breaker
               (robustTtsHandler_steps cm cb md5 en now settled u voiceId requestId requestBody timeout w)))
             = totalFailures (stats cb) + 1)
     \<and> (\<not> isl (fst (callElevenLabsAPI md5 en now u voiceId requestBody timeout w)) \<longrightarrow>
           totalSuccesses (stats (handler_breaker
               (robustTtsHandler_steps cm cb md5 en now settled u voiceId requestId requestBody timeout w)))
             = totalSuccesses (stats cb) + 1
         \<and> totalFailures (stats (handler_breaker
               (robustTtsHandler_steps cm cb md5 en now settled u voiceId requestId requestBody timeout w)))
             = totalFailures (stats cb)))
   \<and> (fst (canProcessRequest cm voiceId) \<and> \<not> isHealthy cb \<longrightarrow>
       handler_answer (robustTtsHandler_steps cm cb md5 en now settled u voiceId requestId requestBody timeout w)
         = ServiceUnavailable
     \<and> handler_world (robustTtsHandler_steps cm cb md5 en now settled u voiceId requestId requestBody timeout w)
         = w
     \<and> handler_breaker (robustTtsHandler_steps cm cb md5 en now settled u voiceId requestId requestBody timeout w)
         = cb)
   \<and> (\<not> fst (canProcessRequest cm voiceId) \<longrightarrow>
       handler_answer (robustTtsHandler_steps cm cb md5 en now settled u voiceId requestId requestBody timeout w)
         = TooManyRequests
     \<and> handler_world (robustTtsHandler_steps cm cb md5 en now settled u voiceId requestId requestBody timeout w)
         = w
     \<and> handler_breaker (robustTtsHandler_steps cm cb md5 en now settled u voiceId requestId requestBody timeout w)
         = cb)"
proof -
  let ?call = "callElevenLabsAPI md5 en now u voiceId requestBody timeout"
  let ?h = "robustTtsHandler_steps cm cb md5 en now settled u voiceId requestId requestBody timeout w"
  obtain admitted cm1 where adm: "canProcessRequest cm voiceId = (admitted, cm1)"
    by (cases "canProcessRequest cm voiceId") auto
  have refused: "handler_answer ?h = TooManyRequests \<and> handler_world ?h = w \<and> handler_breaker ?h = cb"
    if "\<not> fst (canProcessRequest cm voiceId)"
    using that adm by (simp add: robustTtsHandler_steps_def)
  have unavailable: "handler_answer ?h = ServiceUnavailable \<and> handler_world ?h = w \<and> handler_breaker ?h = cb"
    if "fst (canProcessRequest cm voiceId)" and "\<not> isHealthy cb"
    using that adm by (simp add: robustTtsHandler_steps_def)
  have called: "handler_answer ?h = Called (fst (?call w))
     \<and> handler_world ?h = snd (?call w)
     \<and> length (sent w) + 1 \<le> length (sent (handler_world ?h))
     \<and> length (sent (handler_world ?h)) \<le> length (sent w) + (if en then 3 else 1)
     \<and> totalRequests (stats (handler_breaker ?h)) = totalRequests (stats cb) + 1
     \<and> (isl (fst (?call w)) \<longrightarrow>
           failures (handler_breaker ?h) = failures cb + 1
         \<and> totalFailures (stats (handler_breaker ?h)) = totalFailures (stats cb) + 1)
     \<and> (\<not> isl (fst (?call w)) \<longrightarrow>
           totalSuccesses (stats (handler_breaker ?h)) = totalSuccesses (stats cb) + 1
         \<and> totalFailures (stats (handler_breaker ?h)) = totalFailures (stats cb))"
    if ad: "fst (canProcessRequest cm voiceId)" and healthy: "isHealthy cb"
  proof -
    obtain cb1 where e: "execute_enter cb now = (cb1, None)"
      using healthy_gate_passes [OF healthy, of now] by (cases "execute_enter cb now") auto
    have cb1: "cb1 = fst (execute_enter cb now)" using e by simp
    have enter: "totalRequests (stats cb1) = totalRequests (stats cb) + 1"
        "failures cb1 = failures cb" "totalFailures (stats cb1) = totalFailures (stats cb)"
        "totalSuccesses (stats cb1) = totalSuccesses (stats cb)"
      using execute_enter_counts [of cb now] cb1 by simp_all
    obtain a w' where c: "?call w = (a, w')" by (cases "?call w") auto
    have x: "execute cb now settled ?call w
        = (a, (if isl a then execute_failure cb1 settled else execute_success cb1 settled), w')"
      using e c by (cases a) (simp_all add: execute_def)
    have h: "?h = \<lparr> handler_answer = Called a,
                    handler_manager = startRequest cm1 voiceId requestId,
                    handler_breaker = (if isl a then execute_failure cb1 settled
                                       else execute_success cb1 settled),
                    handler_world = w' \<rparr>"
      using ad healthy adm x by (simp add: robustTtsHandler_steps_def)
    have n: "length (sent w) + 1 \<le> length (sent w')"
        "length (sent w') \<le> length (sent w) + (if en then 3 else 1)"
      using call_at_most_three [of w md5 en now u voiceId requestBody timeout] c by simp_all
    have r1: "handler_answer ?h = Called (fst (?call w))" unfolding h c by simp
    have r2: "handler_world ?h = snd (?call w)" unfolding h c by simp
    have r3: "length (sent w) + 1 \<le> length (sent (handler_world ?h))"
      unfolding r2 c using n(1) by simp
    have r4: "length (sent (handler_world ?h)) \<le> length (sent w) + (if en then 3 else 1)"
      unfolding r2 c using n(2) by simp
    have r5: "totalRequests (stats (handler_breaker ?h)) = totalRequests (stats cb) + 1"
      unfolding h using enter(1) execute_failure_counts [of cb1 settled]
        execute_success_counts [of cb1 settled]
      by simp
    have r6: "isl (fst (?call w)) \<longrightarrow>
           failures (handler_breaker ?h) = failures cb + 1
         \<and> totalFailures (stats (handler_breaker ?h)) = totalFailures (stats cb) + 1"
      unfolding h c using enter(2,3) execute_failure_counts [of cb1 settled] by simp
    have r7: "\<not> isl (fst (?call w)) \<longrightarrow>
           totalSuccesses (stats (handler_breaker ?h)) = totalSuccesses (stats cb) + 1
         \<and> totalFailures (stats (handler_breaker ?h)) = totalFailures (stats cb)"
      unfolding h c using enter(3,4) execute_success_counts [of cb1 settled] by simp
    show ?thesis using r1 r2 r3 r4 r5 r6 r7 by blast
  qed
  show ?thesis using refused unavailable called by blast
qed

lemma unreachable_call:
  "callElevenLabsAPI constant_digest True 1000 (1/2) ''voiceA'' ''{}'' 180000 unreachable_world
     = (Inl ''connect ECONNREFUSED 10.0.0.1:8080'',
        snd (callElevenLabsAPI constant_digest True 1000 (1/2) ''voiceA'' ''{}'' 180000 unreachable_world))
   \<and> length (sent (snd (callElevenLabsAPI constant_digest True 1000 (1/2) ''voiceA'' ''{}'' 180000
         unreachable_world))) = 3"
  by (simp add: retry_defs unreachable_world_def)

lemma unlimited_admits: "fst (canProcessRequest unlimited_manager ''voiceA'') = True"
  by (simp add: canProcessRequest_def unlimited_manager_def new_ConcurrencyManager_def)

lemma full_refuses: "fst (canProcessRequest three_in_flight ''voiceA'') = False"
  by (simp add: canProcessRequest_def three_in_flight_eval activeCount_def fcard_finsert_if)

lemma breaker_health: "isHealthy fresh_breaker" "\<not> isHealthy tripped_breaker"
  by (simp_all add: isHealthy_def fresh_breaker_def new_CircuitBreaker_def tripped_breaker_eval)

text \<open>
  C6 as stated fails: three attempts that all fail inside one request leave a fresh
  breaker with threshold 3 at \<open>failures = 1\<close>, still CLOSED, with one request counted.
\<close>

theorem handler_one_failure_counterexample:
  "length (sent (handler_world (robustTtsHandler_steps unlimited_manager fresh_breaker constant_digest True
       1000 9000 (1/2) ''voiceA'' ''req_1000_1'' ''{}'' 180000 unreachable_world))) = 3
   \<and> failures (handler_breaker (robustTtsHandler_steps unlimited_manager fresh_breaker constant_digest True
       1000 9000 (1/2) ''voiceA'' ''req_1000_1'' ''{}'' 180000 unreachable_world)) = 1
   \<and> totalRequests (stats (handler_breaker (robustTtsHandler_steps unlimited_manager fresh_breaker
       constant_digest True 1000 9000 (1/2) ''voiceA'' ''req_1000_1'' ''{}'' 180000 unreachable_world))) = 1
   \<and> failureThreshold fresh_breaker = 3
   \<and> state (handler_breaker (robustTtsHandler_steps unlimited_manager fresh_breaker constant_digest True
       1000 9000 (1/2) ''voiceA'' ''req_1000_1'' ''{}'' 180000 unreachable_world)) = CLOSED"
proof -
  obtain w' where c: "callElevenLabsAPI constant_digest True 1000 (1/2) ''voiceA'' ''{}'' 180000
      unreachable_world = (Inl ''connect ECONNREFUSED 10.0.0.1:8080'', w')" and l: "length (sent w') = 3"
    using unreachable_call by metis
  have e: "execute_enter fresh_breaker 1000 =
      (fresh_breaker\<lparr> requestCount := 1,
          stats := (stats fresh_breaker)\<lparr> totalRequests := 1 \<rparr>, lastRequestTime := Some 1000 \<rparr>, None)"
    by (simp add: fresh_breaker_def new_CircuitBreaker_def execute_enter_def Let_def)
  have x: "execute fresh_breaker 1000 9000
        (callElevenLabsAPI constant_digest True 1000 (1/2) ''voiceA'' ''{}'' 180000) unreachable_world =
      (Inl ''connect ECONNREFUSED 10.0.0.1:8080'',
       execute_failure (fresh_breaker\<lparr> requestCount := 1,
          stats := (stats fresh_breaker)\<lparr> totalRequests := 1 \<rparr>, lastRequestTime := Some 1000 \<rparr>) 9000,
       w')"
    unfolding execute_def e c by simp
  have adm: "canProcessRequest unlimited_manager ''voiceA'' = (True, unlimited_manager)"
    by (simp add: canProcessRequest_def unlimited_manager_def new_ConcurrencyManager_def)
  have h: "handler_world (robustTtsHandler_steps unlimited_manager fresh_breaker constant_digest True
       1000 9000 (1/2) ''voiceA'' ''req_1000_1'' ''{}'' 180000 unreachable_world) = w'"
    "handler_breaker (robustTtsHandler_steps unlimited_manager fresh_breaker constant_digest True
       1000 9000 (1/2) ''voiceA'' ''req_1000_1'' ''{}'' 180000 unreachable_world) =
       execute_failure (fresh_breaker\<lparr> requestCount := 1,
          stats := (stats fresh_breaker)\<lparr> totalRequests := 1 \<rparr>, lastRequestTime := Some 1000 \<rparr>) 9000"
    unfolding robustTtsHandler_steps_def adm x using breaker_health(1) by simp_all
  show ?thesis
    unfolding h using l
    by (simp add: execute_failure_def changeState_def
          fresh_breaker_def new_CircuitBreaker_def or_default_def Let_def)
qed

text \<open>
  A healthy breaker lets the three failing attempts through and counts one failure;
  the tripped breaker is answered with 503 and a full voice with 429, with nothing sent.
\<close>

theorem handler_wraps_whole_call_witness:
  "fst (canProcessRequest unlimited_manager ''voiceA'') \<and> isHealthy fresh_breaker
   \<and> length (sent (handler_world (robustTtsHandler_steps unlimited_manager fresh_breaker constant_digest True
       1000 9000 (1/2) ''voiceA'' ''req_1000_1'' ''{}'' 180000 unreachable_world))) = 3
   \<and> failures (handler_breaker (robustTtsHandler_steps unlimited_manager fresh_breaker constant_digest True
       1000 9000 (1/2) ''voiceA'' ''req_1000_1'' ''{}'' 180000 unreachable_world)) = 1
   \<and> \<not> isHealthy tripped_breaker
   \<and> handler_answer (robustTtsHandler_steps unlimited_manager tripped_breaker constant_digest True
       40000 49000 (1/2) ''voiceA'' ''req_40000_2'' ''{}'' 180000 unreachable_world) = ServiceUnavailable
   \<and> sent (handler_world (robustTtsHandler_steps unlimited_manager tripped_breaker constant_digest True
       40000 49000 (1/2) ''voiceA'' ''req_40000_2'' ''{}'' 180000 unreachable_world)) = []
   \<and> handler_breaker (robustTtsHandler_steps unlimited_manager tripped_breaker constant_digest True
       40000 49000 (1/2) ''voiceA'' ''req_40000_2'' ''{}'' 180000 unreachable_world) = tripped_breaker
   \<and> \<not> fst (canProcessRequest three_in_flight ''voiceA'')
   \<and> handler_answer (robustTtsHandler_steps three_in_flight fresh_breaker constant_digest True
       1000 9000 (1/2) ''voiceA'' ''req_1000_4'' ''{}'' 180000 unreachable_world) = TooManyRequests
   \<and> sent (handler_world (robustTtsHandler_steps three_in_flight fresh_breaker constant_digest True
       1000 9000 (1/2) ''voiceA'' ''req_1000_4'' ''{}'' 180000 unreachable_world)) = []"
proof -
  have c: "isl (fst (callElevenLabsAPI constant_digest True 1000 (1/2) ''voiceA'' ''{}'' 180000
        unreachable_world))"
      "length (sent (snd (callElevenLabsAPI constant_digest True 1000 (1/2) ''voiceA'' ''{}'' 180000
        unreachable_world))) = 3"
    using unreachable_call by (metis fst_conv sum.disc(1), simp)
  have f0: "failures fresh_breaker = 0" "sent unreachable_world = []"
    by (simp_all add: fresh_breaker_def new_CircuitBreaker_def unreachable_world_def)
  show ?thesis
    using handler_wraps_whole_call [where cm = unlimited_manager and cb = fresh_breaker
          and ?md5.0 = constant_digest and en = True and now = 1000 and settled = 9000 and u = "1/2"
          and voiceId = "''voiceA''" and requestId = "''req_1000_1''"
          and requestBody = "''{}''" and timeout = 180000 and w = unreachable_world]
        handler_wraps_whole_call [where cm = unlimited_manager and cb = tripped_breaker
          and ?md5.0 = constant_digest and en = True and now = 40000 and settled = 49000 and u = "1/2"
          and voiceId = "''voiceA''" and requestId = "''req_40000_2''"
          and requestBody = "''{}''" and timeout = 180000 and w = unreachable_world]
        handler_wraps_whole_call [where cm = three_in_flight and cb = fresh_breaker
          and ?md5.0 = constant_digest and en = True and now = 1000 and settled = 9000 and u = "1/2"
          and voiceId = "''voiceA''" and requestId = "''req_1000_4''"
          and requestBody = "''{}''" and timeout = 180000 and w = unreachable_world]
        unlimited_admits full_refuses breaker_health c f0
    by simp
qed

text \<open>
  C2 does not hold of the code. With rotation enabled, a connection reset on the first
  attempt followed by HTTP 500 answers: the cap for the 500 error is 1, but at
  \<open>retryCount = 1\<close> the test \<open>retryCount = actualMaxRetries - 1\<close> is false, so the 500
  answer of the second attempt is retried and three attempts are made.
\<close>

theorem retry_cap_missed:
  "upstream reset_then_500_world 0 = Inl ''read ECONNRESET''
   \<and> upstream reset_then_500_world 1 = Inr server_error
   \<and> upstream reset_then_500_world 2 = Inr server_error
   \<and> status server_error = 500
   \<and> actualMaxRetries 3 ''HTTP_ERROR_500: {}'' = 1
   \<and> fst (callElevenLabsAPI constant_digest True 1000 (1/2) ''voiceA'' ''{}'' 180000
       reset_then_500_world) = Inl ''HTTP_ERROR_500: {}''
   \<and> length (sent (snd (callElevenLabsAPI constant_digest True 1000 (1/2) ''voiceA'' ''{}'' 180000
       reset_then_500_world))) = 3"
  by (simp add: retry_defs reset_then_500_world_def server_error_def show_nat_500)

section \<open>Properties of the stream relay\<close>

lemmas handler_defs = on_data_def on_end_def on_body_error_def on_res_error_def on_res_close_def
  on_timeout_def resolve_def reject_def clearTimeout_def fire_timer_def Let_def

lemma handle_inv: "relay_inv r \<Longrightarrow> relay_inv (handle r ev)"
  by (cases ev; cases "outcome r") (auto simp: relay_inv_def handler_defs)

lemma fire_timer_inv: "relay_inv r \<Longrightarrow> relay_inv (fire_timer r)"
  by (cases "outcome r") (auto simp: relay_inv_def handler_defs)

lemma relay_events_inv: "relay_inv r \<Longrightarrow> relay_inv (relay_events r events)"
  unfolding relay_events_def
  by (induction events arbitrary: r) (simp_all add: handle_inv)

lemma setup_listening:
  assumes "\<not> headersSent res0"
  shows "snd (relay_setup elevenLabsResponse res0 now pipeError) = True
       \<and> relay_inv (fst (relay_setup elevenLabsResponse res0 now pipeError))
       \<and> streamTimeout (fst (relay_setup elevenLabsResponse res0 now pipeError)) = (pipeError = None)"
  using assms
  by (auto simp: relay_setup_def safeSetCorsHeaders_def setHeader_def relay_inv_def reject_def
        clearTimeout_def Let_def split: option.splits)

lemma setup_refused:
  assumes "headersSent res0"
  shows "relay_setup elevenLabsResponse res0 now pipeError =
           (\<lparr> streamState = \<lparr> started = False, finished = False, errored = False,
                                aborted = False, startTime_st = now \<rparr>,
              streamTimeout = False, outcome = Resolved False, body_destroyed = False, res = res0 \<rparr>,
            False)"
  using assms by (simp add: relay_setup_def setup_failed_def Let_def)

lemma robustStreamResponse_listening:
  assumes "snd (relay_setup elevenLabsResponse res0 now pipeError)"
  shows "robustStreamResponse elevenLabsResponse res0 now pipeError events =
           relay_events (fire_timer (relay_at_deadline elevenLabsResponse res0 now pipeError events))
             (map snd (dropWhile before_deadline events))"
  using assms
  by (cases "relay_setup elevenLabsResponse res0 now pipeError") (simp add: robustStreamResponse_def)

lemma handle_settled: "outcome r \<noteq> Pending \<Longrightarrow> outcome (handle r ev) = outcome r"
  by (cases ev) (auto simp: handler_defs)

lemma handle_aborted: "aborted (streamState r) \<Longrightarrow> aborted (streamState (handle r ev))"
  by (cases ev) (auto simp: handler_defs)

lemma handle_destroyed: "body_destroyed r \<Longrightarrow> body_destroyed (handle r ev)"
  by (cases ev) (auto simp: handler_defs)

lemma relay_events_settled:
  "outcome r \<noteq> Pending \<Longrightarrow> outcome (relay_events r events) = outcome r"
  unfolding relay_events_def
  by (induction events arbitrary: r) (simp_all add: handle_settled)

lemma relay_events_aborted:
  "aborted (streamState r) \<Longrightarrow> aborted (streamState (relay_events r events))"
  unfolding relay_events_def
  by (induction events arbitrary: r) (simp_all add: handle_aborted)

lemma relay_events_destroyed:
  "body_destroyed r \<Longrightarrow> body_destroyed (relay_events r events)"
  unfolding relay_events_def
  by (induction events arbitrary: r) (simp_all add: handle_destroyed)

lemma handle_timer:
  "streamTimeout (handle r ev) = (streamTimeout r \<and> \<not> clears_timer ev)"
  by (cases ev) (auto simp: handler_defs clears_timer_def)

lemma relay_events_timer:
  "streamTimeout (relay_events r events) = (streamTimeout r \<and> (\<forall>ev \<in> set events. \<not> clears_timer ev))"
  unfolding relay_events_def
  by (induction events arbitrary: r) (auto simp: handle_timer)

lemma fire_timer_armed:
  assumes "relay_inv r" and "streamTimeout r"
  shows "aborted (streamState (fire_timer r)) \<and> body_destroyed (fire_timer r)
       \<and> outcome (fire_timer r) = Rejected ''Stream timeout''"
  using assms by (auto simp: relay_inv_def handler_defs)

lemma resolves_true_step:
  assumes "outcome r \<noteq> Resolved True" and "outcome (handle r ev) = Resolved True"
  shows "ev = End \<and> \<not> errored (streamState r) \<and> \<not> aborted (streamState r)
       \<and> finished (streamState (handle r ev)) \<and> \<not> errored (streamState (handle r ev))
       \<and> \<not> aborted (streamState (handle r ev))"
  using assms by (cases ev) (auto simp: handler_defs split: if_splits)

lemma fire_timer_never_resolves:
  "outcome r \<noteq> Resolved True \<Longrightarrow> outcome (fire_timer r) \<noteq> Resolved True"
  by (auto simp: handler_defs)

text \<open>
  What holds of the relay. The promise is resolved to \<open>true\<close> only by the \<open>end\<close>
  listener, run while neither \<open>errored\<close> nor \<open>aborted\<close> is up, which puts \<open>finished\<close> up;
  so a relay that resolved to \<open>true\<close> is \<open>finished\<close> and not \<open>aborted\<close>. On a sink that
  has not sent its headers the timer is still set after 30 seconds exactly when
  \<^verbatim>\<open>pipe\<close> did not throw and nothing but \<open>data\<close> events came before; then neither
  \<open>finished\<close> nor \<open>errored\<close> is up, the timer's callback puts \<open>aborted\<close> up, destroys the
  upstream body and rejects with the timeout error, and nothing later changes that.
  On a sink whose headers were already sent the relay returns \<open>false\<close> and leaves the
  sink as it was.
\<close>

theorem robustStreamResponse_outcomes:
  "(outcome (robustStreamResponse elevenLabsResponse res0 now pipeError events) = Resolved True \<longrightarrow>
      finished (streamState (robustStreamResponse elevenLabsResponse res0 now pipeError events))
    \<and> \<not> aborted (streamState (robustStreamResponse elevenLabsResponse res0 now pipeError events)))
   \<and> (outcome r \<noteq> Resolved True \<and> outcome (handle r ev) = Resolved True \<longrightarrow>
        ev = End \<and> \<not> errored (streamState r) \<and> \<not> aborted (streamState r)
      \<and> finished (streamState (handle r ev)) \<and> \<not> errored (streamState (handle r ev))
      \<and> \<not> aborted (streamState (handle r ev)))
   \<and> (outcome r \<noteq> Resolved True \<longrightarrow> outcome (fire_timer r) \<noteq> Resolved True)
   \<and> (\<not> headersSent res0 \<longrightarrow>
        streamTimeout (relay_at_deadline elevenLabsResponse res0 now pipeError events)
          = (pipeError = None \<and> (\<forall>timed \<in> set (takeWhile before_deadline events). snd timed = Data)))
   \<and> (\<not> headersSent res0
        \<and> streamTimeout (relay_at_deadline elevenLabsResponse res0 now pipeError events) \<longrightarrow>
        \<not> finished (streamState (relay_at_deadline elevenLabsResponse res0 now pipeError events))
      \<and> \<not> errored (streamState (relay_at_deadline elevenLabsResponse res0 now pipeError events))
      \<and> aborted (streamState (robustStreamResponse elevenLabsResponse res0 now pipeError events))
      \<and> body_destroyed (robustStreamResponse elevenLabsResponse res0 now pipeError events)
      \<and> outcome (robustStreamResponse elevenLabsResponse res0 now pipeError events)
           = Rejected ''Stream timeout'')
   \<and> (headersSent res0 \<longrightarrow>
        outcome (robustStreamResponse elevenLabsResponse res0 now pipeError events) = Resolved False
      \<and> res (robustStreamResponse elevenLabsResponse res0 now pipeError events) = res0)"
proof -
  let ?final = "robustStreamResponse elevenLabsResponse res0 now pipeError events"
  let ?prep = "relay_setup elevenLabsResponse res0 now pipeError"
  let ?mid = "relay_at_deadline elevenLabsResponse res0 now pipeError events"
  have refused: "outcome ?final = Resolved False \<and> res ?final = res0" if "headersSent res0"
    using setup_refused [OF that] by (simp add: robustStreamResponse_def)
  have listening: "?final = relay_events (fire_timer ?mid) (map snd (dropWhile before_deadline events))"
    and mid_inv: "relay_inv ?mid"
    and armed: "streamTimeout ?mid
          = (pipeError = None \<and> (\<forall>timed \<in> set (takeWhile before_deadline events). snd timed = Data))"
    if open_: "\<not> headersSent res0"
  proof -
    have s: "snd ?prep = True" "relay_inv (fst ?prep)" "streamTimeout (fst ?prep) = (pipeError = None)"
      using setup_listening [OF open_] by simp_all
    show "?final = relay_events (fire_timer ?mid) (map snd (dropWhile before_deadline events))"
      using s(1) by (simp add: robustStreamResponse_listening)
    show "relay_inv ?mid"
      unfolding relay_at_deadline_def using s(2) by (rule relay_events_inv)
    show "streamTimeout ?mid
          = (pipeError = None \<and> (\<forall>timed \<in> set (takeWhile before_deadline events). snd timed = Data))"
      unfolding relay_at_deadline_def relay_events_timer s(3)
      by (auto simp: clears_timer_def)
  qed
  have final_inv: "relay_inv ?final" if "\<not> headersSent res0"
    unfolding listening [OF that]
    by (intro relay_events_inv fire_timer_inv mid_inv [OF that])
  have c1: "outcome ?final = Resolved True \<longrightarrow>
      finished (streamState ?final) \<and> \<not> aborted (streamState ?final)"
  proof (cases "headersSent res0")
    case True
    then show ?thesis using refused by simp
  next
    case False
    then show ?thesis using final_inv by (simp add: relay_inv_def)
  qed
  have c2: "outcome r \<noteq> Resolved True \<and> outcome (handle r ev) = Resolved True \<longrightarrow>
        ev = End \<and> \<not> errored (streamState r) \<and> \<not> aborted (streamState r)
      \<and> finished (streamState (handle r ev)) \<and> \<not> errored (streamState (handle r ev))
      \<and> \<not> aborted (streamState (handle r ev))"
    using resolves_true_step by blast
  have c3: "outcome r \<noteq> Resolved True \<longrightarrow> outcome (fire_timer r) \<noteq> Resolved True"
    using fire_timer_never_resolves by blast
  have c5: "\<not> finished (streamState ?mid) \<and> \<not> errored (streamState ?mid)
      \<and> aborted (streamState ?final) \<and> body_destroyed ?final
      \<and> outcome ?final = Rejected ''Stream timeout''"
    if open_: "\<not> headersSent res0" and t: "streamTimeout ?mid"
  proof -
    have quiet: "\<not> finished (streamState ?mid) \<and> \<not> errored (streamState ?mid)"
      using mid_inv [OF open_] t by (simp add: relay_inv_def)
    have fired: "aborted (streamState (fire_timer ?mid))" "body_destroyed (fire_timer ?mid)"
        "outcome (fire_timer ?mid) = Rejected ''Stream timeout''"
      using fire_timer_armed [OF mid_inv [OF open_] t] by simp_all
    show ?thesis
      unfolding listening [OF open_]
      using quiet fired relay_events_aborted relay_events_destroyed relay_events_settled
      by simp
  qed
  show ?thesis
    using c1 c2 c3 armed c5 refused by blast
qed

lemma close_then_silence:
  "relay_at_deadline audio_response open_sink 0 None [(5000, ResClose)] =
     \<lparr> streamState = \<lparr> started = False, finished = False, errored = False, aborted = False,
                        startTime_st = 0 \<rparr>,
       streamTimeout = False, outcome = Pending, body_destroyed = True,
       res = open_sink\<lparr> sink_headers :=
               [ (''Access-Control-Allow-Origin'', ''*''),
                 (''Access-Control-Allow-Methods'', ''GET, POST, OPTIONS''),
                 (''Access-Control-Allow-Headers'', ''Content-Type, x-proxy-secret''),
                 (''Content-Type'', ''audio/mpeg'') ] \<rparr> \<rparr>"
  by (simp add: relay_at_deadline_def relay_setup_def relay_events_def before_deadline_def
        stream_timeout_ms_def safeSetCorsHeaders_def setHeader_def open_sink_def audio_response_def
        handler_defs)

text \<open>
  C4 does not hold of the code. When the sink closes 5 seconds into the relay and
  nothing else happens, the \<open>close\<close> listener clears the timer and destroys the upstream
  body but puts no flag up and does not settle the promise. After 30 seconds neither
  \<open>finished\<close> nor \<open>errored\<close> is up, and yet \<open>aborted\<close> is not put up and the promise is
  not rejected: it stays pending.
\<close>

theorem relay_close_never_settles:
  "\<not> headersSent open_sink
   \<and> \<not> finished (streamState (relay_at_deadline audio_response open_sink 0 None [(5000, ResClose)]))
   \<and> \<not> errored (streamState (relay_at_deadline audio_response open_sink 0 None [(5000, ResClose)]))
   \<and> \<not> aborted (streamState (robustStreamResponse audio_response open_sink 0 None [(5000, ResClose)]))
   \<and> body_destroyed (robustStreamResponse audio_response open_sink 0 None [(5000, ResClose)])
   \<and> outcome (robustStreamResponse audio_response open_sink 0 None [(5000, ResClose)]) = Pending"
proof -
  have s: "snd (relay_setup audio_response open_sink 0 None) = True"
    by (simp add: relay_setup_def safeSetCorsHeaders_def open_sink_def Let_def)
  have f: "robustStreamResponse audio_response open_sink 0 None [(5000, ResClose)]
        = fire_timer (relay_at_deadline audio_response open_sink 0 None [(5000, ResClose)])"
    using s by (simp add: robustStreamResponse_listening relay_events_def before_deadline_def
        stream_timeout_ms_def)
  show ?thesis
    unfolding f close_then_silence by (simp add: fire_timer_def open_sink_def)
qed

text \<open>
  An upstream body that ends after 900 ms resolves to \<open>true\<close>; one that sends data and
  then nothing until 31000 ms is aborted by the timer; a sink with its headers sent is
  left alone.
\<close>

theorem robustStreamResponse_outcomes_witness:
  "outcome (robustStreamResponse audio_response open_sink 0 None [(10, Data), (900, End)]) = Resolved True
   \<and> finished (streamState (robustStreamResponse audio_response open_sink 0 None [(10, Data), (900, End)]))
   \<and> \<not> headersSent open_sink
   \<and> streamTimeout (relay_at_deadline audio_response open_sink 0 None [(10, Data), (31000, End)])
   \<and> aborted (streamState (robustStreamResponse audio_response open_sink 0 None [(10, Data), (31000, End)]))
   \<and> body_destroyed (robustStreamResponse audio_response open_sink 0 None [(10, Data), (31000, End)])
   \<and> outcome (robustStreamResponse audio_response open_sink 0 None [(10, Data), (31000, End)])
        = Rejected ''Stream timeout''
   \<and> headersSent committed_sink
   \<and> outcome (robustStreamResponse audio_response committed_sink 0 None [(10, Data), (900, End)])
        = Resolved False
   \<and> res (robustStreamResponse audio_response committed_sink 0 None [(10, Data), (900, End)])
        = committed_sink"
proof -
  have ok_run: "outcome (robustStreamResponse audio_response open_sink 0 None [(10, Data), (900, End)])
      = Resolved True"
    by (simp add: robustStreamResponse_def relay_at_deadline_def relay_setup_def relay_events_def
        before_deadline_def stream_timeout_ms_def safeSetCorsHeaders_def setHeader_def open_sink_def
        audio_response_def handler_defs)
  have o: "\<not> headersSent open_sink" "headersSent committed_sink"
    by (simp_all add: open_sink_def committed_sink_def)
  have d: "takeWhile before_deadline [(10, Data), (31000, End)] = [(10, Data)]"
    by (simp add: before_deadline_def stream_timeout_ms_def)
  show ?thesis
    using robustStreamResponse_outcomes [where elevenLabsResponse = audio_response and ?res0.0 = open_sink
            and now = 0 and pipeError = None and events = "[(10, Data), (900, End)]"]
          robustStreamResponse_outcomes [where elevenLabsResponse = audio_response and ?res0.0 = open_sink
            and now = 0 and pipeError = None and events = "[(10, Data), (31000, End)]"]
          robustStreamResponse_outcomes [where elevenLabsResponse = audio_response
            and ?res0.0 = committed_sink
            and now = 0 and pipeError = None and events = "[(10, Data), (900, End)]"]
          ok_run o d
    by (simp add: before_deadline_def stream_timeout_ms_def)
qed

end
